theory Spec2Isabelle
  imports Complex_Main
begin

section \<open>Common ground: exceptions, outcomes, the clock\<close>

text \<open>
  The exception classes that matter. The first four are the classes listed in the retry
  decorator of \<open>_perform_bulk_insert\<close> (the pymongo errors); \<open>ConnectionError\<close> is
  the Python builtin raised by \<open>get_messages_collection\<close>, \<open>TypeError\<close> is what
  \<open>datetime - None\<close> raises, \<open>InvalidDocument\<close> stands for a document the driver
  refuses to encode, \<open>InvalidId\<close> is raised by \<open>ObjectId(s)\<close> on a malformed id and
  \<open>KeyError\<close> by a missing dictionary key. \<open>HTTPException\<close> carries its status code
  and its detail; the routes build the detail of a 500 answer as \<open>str(e)\<close> of the
  exception they caught, which is kept as \<open>Str e\<close>.
\<close>

datatype exn =
    ConnectionFailure
  | OperationFailure
  | ServerSelectionTimeoutError
  | NetworkTimeout
  | ConnectionError
  | TypeError
  | InvalidDocument
  | InvalidId
  | KeyError
  | HTTPException nat detail
and detail =
    Text string
  | Str exn

text \<open>
  A coroutine either returns a value, raises, or is suspended for ever (it awaits a lock
  that its own caller holds). Each outcome carries the state the program is left in.
\<close>

datatype ('a, 's) outcome =
    Returns 'a 's
  | Raises exn 's
  | Blocks 's

fun final_state :: "('a, 's) outcome \<Rightarrow> 's" where
  "final_state (Returns v s) = s"
| "final_state (Raises e s) = s"
| "final_state (Blocks s) = s"

text \<open>What a caller sees of an outcome: the exception raised, the value returned.\<close>

fun raised :: "('a, 's) outcome \<Rightarrow> exn option" where
  "raised (Raises e s) = Some e"
| "raised (Returns v s) = None"
| "raised (Blocks s) = None"

fun returned :: "('a, 's) outcome \<Rightarrow> 'a option" where
  "returned (Returns v s) = Some v"
| "returned (Raises e s) = None"
| "returned (Blocks s) = None"

text \<open>
  Time stamps are \<open>datetime\<close> values: whole microseconds since the epoch.
  \<open>(a - b).total_seconds() > n\<close> for an integer \<open>n\<close> of seconds is
  \<open>a - b > n * 1000000\<close> on these.
\<close>

type_synonym timestamp = int

definition seconds :: "int \<Rightarrow> int" where
  "seconds n = n * 1000000"

section \<open>core/message\_buffer.py: CircuitBreaker\<close>

record CircuitBreaker =
  failure_count :: int
  failure_threshold :: int
  reset_timeout :: int
  last_failure_time :: "timestamp option"
  is_open :: bool

definition CircuitBreaker_init :: "int \<Rightarrow> int \<Rightarrow> CircuitBreaker" where
  "CircuitBreaker_init threshold timeout =
     \<lparr> failure_count = 0, failure_threshold = threshold, reset_timeout = timeout,
       last_failure_time = None, is_open = False \<rparr>"

text \<open>\<open>record_failure\<close>; \<open>now\<close> is the value of \<open>datetime.now(UTC)\<close> it reads.\<close>

definition record_failure :: "timestamp \<Rightarrow> CircuitBreaker \<Rightarrow> CircuitBreaker" where
  "record_failure now cb =
     (let cb1 = cb\<lparr> failure_count := failure_count cb + 1 \<rparr>;
          cb2 = cb1\<lparr> last_failure_time := Some now \<rparr>
      in if failure_count cb2 \<ge> failure_threshold cb2 then cb2\<lparr> is_open := True \<rparr> else cb2)"

definition record_success :: "CircuitBreaker \<Rightarrow> CircuitBreaker" where
  "record_success cb = cb\<lparr> failure_count := 0, is_open := False \<rparr>"

text \<open>
  \<open>can_proceed\<close> returns its answer together with the breaker it leaves behind. The
  clock is read only when the breaker is open; \<open>now\<close> is that reading. An open breaker
  without a recorded failure time makes the subtraction raise \<open>TypeError\<close>.
\<close>

definition can_proceed :: "timestamp \<Rightarrow> CircuitBreaker \<Rightarrow> exn + (bool \<times> CircuitBreaker)" where
  "can_proceed now cb =
     (if \<not> is_open cb then Inr (True, cb)
      else case last_failure_time cb of
             None \<Rightarrow> Inl TypeError
           | Some t \<Rightarrow>
               if now - t > seconds (reset_timeout cb)
               then Inr (True, cb\<lparr> failure_count := 0, is_open := False \<rparr>)
               else Inr (False, cb))"

text \<open>A run of consecutive \<open>record_failure\<close> calls, one per clock reading.\<close>

fun record_failures :: "timestamp list \<Rightarrow> CircuitBreaker \<Rightarrow> CircuitBreaker" where
  "record_failures [] cb = cb"
| "record_failures (t # ts) cb = record_failures ts (record_failure t cb)"

text \<open>The breaker every \<open>MessageBuffer\<close> is built with (line 53).\<close>

definition buffer_breaker :: CircuitBreaker where
  "buffer_breaker = CircuitBreaker_init 3 60"


section \<open>The world outside the process\<close>

text \<open>
  What the write path touches outside its own objects: the system clock, the lazily
  initialised collection handle of \<open>core/database.py\<close>, the store's \<open>insert_many\<close>
  and the log. The clock and the faults of the store are not decided by the program, so
  they are oracles: \<open>time_at w n\<close> is the value of the \<open>n\<close>-th clock reading,
  \<open>collection_fault w n\<close> is what the \<open>n\<close>-th call of \<open>get_messages_collection\<close>
  raises (if anything) and \<open>insert_fault w n\<close> what the \<open>n\<close>-th \<open>insert_many\<close>
  raises. \<open>inserted\<close> lists the chunks handed to \<open>insert_many\<close>, in call order.
  \<open>slept\<close> lists the durations, in seconds, that the retry decorator hands to
  \<open>asyncio.sleep\<close>, and \<open>random_at w n\<close> is the value of the \<open>n\<close>-th call of
  \<open>random.random()\<close>, which the decorator makes once per wait.
\<close>

datatype log_record =
    Warning_breaker_open
  | Error_bulk_insert exn
  | Error_flushing exn
  | Error_periodic_flush exn

record 'm world =
  ticks :: nat
  time_at :: "nat \<Rightarrow> timestamp"
  collection_calls :: nat
  collection_fault :: "nat \<Rightarrow> exn option"
  inserted :: "'m list list"
  insert_fault :: "nat \<Rightarrow> exn option"
  logged :: "log_record list"
  slept :: "rat list"
  random_at :: "nat \<Rightarrow> rat"

definition datetime_now :: "'m world \<Rightarrow> timestamp \<times> 'm world" where
  "datetime_now w = (time_at w (ticks w), w\<lparr> ticks := Suc (ticks w) \<rparr>)"

definition logging :: "log_record \<Rightarrow> 'm world \<Rightarrow> 'm world" where
  "logging r w = w\<lparr> logged := logged w @ [r] \<rparr>"

definition asyncio_sleep :: "rat \<Rightarrow> 'm world \<Rightarrow> 'm world" where
  "asyncio_sleep d w = w\<lparr> slept := slept w @ [d] \<rparr>"

definition get_messages_collection :: "'m world \<Rightarrow> (unit, 'm world) outcome" where
  "get_messages_collection w =
     (let w' = w\<lparr> collection_calls := Suc (collection_calls w) \<rparr>
      in case collection_fault w (collection_calls w) of
           None \<Rightarrow> Returns () w'
         | Some e \<Rightarrow> Raises e w')"

definition insert_many :: "'m list \<Rightarrow> 'm world \<Rightarrow> (unit, 'm world) outcome" where
  "insert_many chunk w =
     (let w' = w\<lparr> inserted := inserted w @ [chunk] \<rparr>
      in case insert_fault w (length (inserted w)) of
           None \<Rightarrow> Returns () w'
         | Some e \<Rightarrow> Raises e w')"

section \<open>core/message\_buffer.py: MessageBuffer\<close>

record Stats =
  total_messages :: int
  successful_flushes :: int
  failed_flushes :: int
  retry_count :: int
  circuit_breaker_trips :: int

record WriteConcern =
  wc_w :: int
  wc_wtimeout :: int

text \<open>
  \<open>lock\<close> is the \<open>asyncio.Lock\<close>: \<open>True\<close> while some coroutine holds it.
\<close>

record 'm MessageBuffer =
  messages :: "'m list"
  batch_size :: int
  flush_interval :: rat
  lock :: bool
  last_flush :: timestamp
  max_retries :: int
  circuit_breaker :: CircuitBreaker
  write_concern :: WriteConcern
  stats :: Stats

type_synonym 'm state = "'m MessageBuffer \<times> 'm world"

definition MessageBuffer_init :: "int \<Rightarrow> rat \<Rightarrow> int \<Rightarrow> 'm world \<Rightarrow> 'm state" where
  "MessageBuffer_init bsize interval retries w =
     (case datetime_now w of (now, w') \<Rightarrow>
        (\<lparr> messages = [], batch_size = bsize, flush_interval = interval, lock = False,
           last_flush = now, max_retries = retries,
           circuit_breaker = CircuitBreaker_init 3 60,
           write_concern = \<lparr> wc_w = 1, wc_wtimeout = 20000 \<rparr>,
           stats = \<lparr> total_messages = 0, successful_flushes = 0, failed_flushes = 0,
                     retry_count = 0, circuit_breaker_trips = 0 \<rparr> \<rparr>, w'))"

text \<open>The global instance created when the module is imported (lines 156-161).\<close>

definition message_buffer :: "'m world \<Rightarrow> 'm state" where
  "message_buffer w = MessageBuffer_init 10 2 2 w"

text \<open>
  \<open>async with self.lock\<close>. The lock is not reentrant: a coroutine that asks for it
  while it is held waits until the holder releases it. When the holder is the caller
  of the very coroutine that waits, no release ever comes. The lock is released when the
  body returns or raises, and stays held when the body is suspended for ever.
\<close>

definition with_lock ::
  "('m state \<Rightarrow> ('a, 'm state) outcome) \<Rightarrow> 'm state \<Rightarrow> ('a, 'm state) outcome" where
  "with_lock body s =
     (case s of (b, w) \<Rightarrow>
        if lock b then Blocks (b, w)
        else (case body (b\<lparr> lock := True \<rparr>, w) of
                Returns v (b', w') \<Rightarrow> Returns v (b'\<lparr> lock := False \<rparr>, w')
              | Raises e (b', w') \<Rightarrow> Raises e (b'\<lparr> lock := False \<rparr>, w')
              | Blocks s' \<Rightarrow> Blocks s'))"

subsection \<open>One attempt of the bulk insert (the undecorated body, lines 78-102)\<close>

definition chunk_size :: nat where
  "chunk_size = 5"

text \<open>\<open>range(0, stop, step)\<close> for a positive step.\<close>

definition range_step :: "nat \<Rightarrow> nat \<Rightarrow> nat list" where
  "range_step stop step = map (\<lambda>k. k * step) [0 ..< (stop + step - 1) div step]"

definition chunks :: "'m list \<Rightarrow> 'm list list" where
  "chunks messages_to_flush =
     map (\<lambda>i. take chunk_size (drop i messages_to_flush))
         (range_step (length messages_to_flush) chunk_size)"

text \<open>The \<open>for\<close> loop: chunks are inserted one after the other; the first exception leaves the loop.\<close>

fun insert_chunks :: "'m list list \<Rightarrow> 'm world \<Rightarrow> (unit, 'm world) outcome" where
  "insert_chunks [] w = Returns () w"
| "insert_chunks (c # cs) w =
     (case insert_many c w of
        Returns u w' \<Rightarrow> insert_chunks cs w'
      | Raises e w' \<Rightarrow> Raises e w'
      | Blocks w' \<Rightarrow> Blocks w')"

text \<open>What stands inside \<open>try\<close> before \<open>record_success\<close>.\<close>

definition try_insert :: "'m list \<Rightarrow> 'm world \<Rightarrow> (unit, 'm world) outcome" where
  "try_insert messages_to_flush w =
     (case get_messages_collection w of
        Returns u w' \<Rightarrow> insert_chunks (chunks messages_to_flush) w'
      | Raises e w' \<Rightarrow> Raises e w'
      | Blocks w' \<Rightarrow> Blocks w')"

text \<open>
  \<open>self.circuit_breaker.can_proceed()\<close> against the world's clock, which is read only
  when the breaker is open.
\<close>

definition breaker_gate ::
  "CircuitBreaker \<Rightarrow> 'm world \<Rightarrow> (exn + (bool \<times> CircuitBreaker)) \<times> 'm world" where
  "breaker_gate cb w =
     (if is_open cb
      then (case datetime_now w of (now, w') \<Rightarrow> (can_proceed now cb, w'))
      else (can_proceed 0 cb, w))"

definition count_trip :: "'m MessageBuffer \<Rightarrow> 'm MessageBuffer" where
  "count_trip b =
     b\<lparr> stats := (stats b)\<lparr> circuit_breaker_trips := circuit_breaker_trips (stats b) + 1 \<rparr> \<rparr>"

definition bulk_insert_attempt :: "'m list \<Rightarrow> 'm state \<Rightarrow> (bool, 'm state) outcome" where
  "bulk_insert_attempt messages_to_flush s =
     (case s of (b, w) \<Rightarrow>
       (case breaker_gate (circuit_breaker b) w of
          (Inl e, w1) \<Rightarrow> Raises e (b, w1)
        | (Inr (False, cb), w1) \<Rightarrow>
            Returns False (b\<lparr> circuit_breaker := cb \<rparr>, logging Warning_breaker_open w1)
        | (Inr (True, cb), w1) \<Rightarrow>
            (case try_insert messages_to_flush w1 of
               Returns u w2 \<Rightarrow> Returns True (b\<lparr> circuit_breaker := record_success cb \<rparr>, w2)
             | Raises e w2 \<Rightarrow>
                 (case datetime_now (logging (Error_bulk_insert e) w2) of (now, w3) \<Rightarrow>
                    Raises e (count_trip (b\<lparr> circuit_breaker := record_failure now cb \<rparr>), w3))
             | Blocks w2 \<Rightarrow> Blocks (b\<lparr> circuit_breaker := cb \<rparr>, w2))))"

subsection \<open>The retry decorator\<close>

text \<open>
  The waits of the decorator. \<open>backoff.expo\<close> (base 2, factor 1) yields 1, 2, 4 and
  so on; the default jitter is \<open>full_jitter\<close>, \<open>random.uniform(0, v)\<close>, which is
  \<open>0 + (v - 0) * random()\<close>; \<open>_next_wait\<close> caps the jittered value at
  \<open>max_time - elapsed\<close>. Durations are seconds, kept as exact rationals where the
  program has floats; \<open>elapsed\<close> and \<open>max_time\<close> come in microseconds.
\<close>

definition expo :: "nat \<Rightarrow> rat" where
  "expo n = 1 * 2 ^ n"

definition full_jitter :: "rat \<Rightarrow> 'm world \<Rightarrow> rat" where
  "full_jitter v w = 0 + (v - 0) * random_at w (length (slept w))"

definition next_wait :: "nat \<Rightarrow> int \<Rightarrow> int \<Rightarrow> 'm world \<Rightarrow> rat" where
  "next_wait n elapsed max_time w =
     min (full_jitter (expo n) w) (of_int (max_time - elapsed) / 1000000)"

text \<open>
  \<open>backoff.on_exception(backoff.expo, classes, max_tries, max_time)\<close> as the backoff
  library runs an async target: it reads the clock once (\<open>start\<close>), then loops. Each
  round reads the clock (\<open>elapsed\<close> is taken before the target is called) and awaits
  the target. A return value, whatever it is, ends the loop. An exception outside the
  listed classes propagates. An exception of a listed class is raised again when this was
  the last permitted try or when \<open>elapsed >= max_time\<close>, with the \<open>elapsed\<close> taken
  before the try; otherwise the loop sleeps for the next wait and goes round again.
  \<open>waits\<close> counts the waits made so far and \<open>tries_left\<close> is
  \<open>max_tries - tries + 1\<close> at the start of a round.
\<close>

fun retry_exception ::
  "(exn \<Rightarrow> bool) \<Rightarrow> int \<Rightarrow> ('m state \<Rightarrow> ('a, 'm state) outcome) \<Rightarrow> timestamp \<Rightarrow> nat \<Rightarrow> nat \<Rightarrow>
   'm state \<Rightarrow> ('a, 'm state) outcome" where
  "retry_exception listed max_time target start waits tries_left (b, w) =
     (case datetime_now w of (now, w1) \<Rightarrow>
        (case target (b, w1) of
           Raises e s' \<Rightarrow>
             if listed e \<and> 1 < tries_left \<and> now - start < max_time
             then retry_exception listed max_time target start (Suc waits) (tries_left - 1)
                    (fst s',
                     asyncio_sleep (next_wait waits (now - start) max_time (snd s')) (snd s'))
             else Raises e s'
         | Returns v s' \<Rightarrow> Returns v s'
         | Blocks s' \<Rightarrow> Blocks s'))"

declare retry_exception.simps [simp del]

definition on_exception ::
  "(exn \<Rightarrow> bool) \<Rightarrow> nat \<Rightarrow> int \<Rightarrow> ('m state \<Rightarrow> ('a, 'm state) outcome) \<Rightarrow>
   'm state \<Rightarrow> ('a, 'm state) outcome" where
  "on_exception listed max_tries max_time target s =
     (case s of (b, w) \<Rightarrow>
        (case datetime_now w of (start, w0) \<Rightarrow>
           retry_exception listed max_time target start 0 max_tries (b, w0)))"

text \<open>The tuple of classes in the decorator (line 74).\<close>

fun retried_class :: "exn \<Rightarrow> bool" where
  "retried_class ConnectionFailure = True"
| "retried_class OperationFailure = True"
| "retried_class ServerSelectionTimeoutError = True"
| "retried_class NetworkTimeout = True"
| "retried_class e = False"

text \<open>\<open>_perform_bulk_insert\<close> as callers see it: the body under its decorator.\<close>

definition perform_bulk_insert :: "'m list \<Rightarrow> 'm state \<Rightarrow> (bool, 'm state) outcome" where
  "perform_bulk_insert messages_to_flush =
     on_exception retried_class 2 (seconds 10) (bulk_insert_attempt messages_to_flush)"

subsection \<open>flush, add\_message, the periodic flush\<close>

definition count_failed_flush :: "'m MessageBuffer \<Rightarrow> 'm MessageBuffer" where
  "count_failed_flush b =
     b\<lparr> stats := (stats b)\<lparr> failed_flushes := failed_flushes (stats b) + 1 \<rparr> \<rparr>"

definition count_successful_flush :: "'m MessageBuffer \<Rightarrow> 'm MessageBuffer" where
  "count_successful_flush b =
     b\<lparr> stats := (stats b)\<lparr> successful_flushes := successful_flushes (stats b) + 1 \<rparr> \<rparr>"

text \<open>The body of \<open>flush\<close> under the lock (lines 106-131).\<close>

definition flush_locked :: "'m state \<Rightarrow> (unit, 'm state) outcome" where
  "flush_locked s =
     (case s of (b, w) \<Rightarrow>
        if messages b = [] then Returns () (b, w)
        else
          (let messages_to_flush = messages b;
               b0 = b\<lparr> messages := [] \<rparr>
           in case perform_bulk_insert messages_to_flush (b0, w) of
                Returns True (b1, w1) \<Rightarrow>
                  (case datetime_now w1 of (now, w2) \<Rightarrow>
                     Returns () (count_successful_flush (b1\<lparr> last_flush := now \<rparr>), w2))
              | Returns False (b1, w1) \<Rightarrow>
                  (let b2 = count_failed_flush b1
                   in Returns () (b2\<lparr> messages := messages b2 @ messages_to_flush \<rparr>, w1))
              | Raises e (b1, w1) \<Rightarrow>
                  (let b2 = count_failed_flush b1;
                       w2 = logging (Error_flushing e) w1;
                       b3 = b2\<lparr> messages := messages b2 @ messages_to_flush \<rparr>
                   in Returns () (b3\<lparr> batch_size := max 10 (batch_size b3 div 2) \<rparr>, w2))
              | Blocks s' \<Rightarrow> Blocks s'))"

definition flush :: "'m state \<Rightarrow> (unit, 'm state) outcome" where
  "flush = with_lock flush_locked"

definition add_message :: "'m \<Rightarrow> 'm state \<Rightarrow> (unit, 'm state) outcome" where
  "add_message message =
     with_lock (\<lambda>s. case s of (b, w) \<Rightarrow>
       (let b1 = b\<lparr> messages := messages b @ [message] \<rparr>;
            b2 = b1\<lparr> stats := (stats b1)\<lparr> total_messages := total_messages (stats b1) + 1 \<rparr> \<rparr>
        in if int (length (messages b2)) \<ge> batch_size b2 then flush (b2, w)
           else Returns () (b2, w)))"

text \<open>
  One round of the \<open>while True\<close> loop of \<open>start_periodic_flush\<close>, after its sleep.
  Whatever is raised inside the round is logged and swallowed.
\<close>

definition periodic_round :: "'m state \<Rightarrow> (unit, 'm state) outcome" where
  "periodic_round s =
     (case s of (b, w) \<Rightarrow>
       (case breaker_gate (circuit_breaker b) w of
          (Inl e, w1) \<Rightarrow> Returns () (b, logging (Error_periodic_flush e) w1)
        | (Inr (False, cb), w1) \<Rightarrow> Returns () (b\<lparr> circuit_breaker := cb \<rparr>, w1)
        | (Inr (True, cb), w1) \<Rightarrow>
            (case flush (b\<lparr> circuit_breaker := cb \<rparr>, w1) of
               Returns u (b2, w2) \<Rightarrow>
                 Returns ()
                   (if successful_flushes (stats b2) > 5
                    then b2\<lparr> batch_size := min 50 (batch_size b2 + 5) \<rparr> else b2, w2)
             | Raises e (b2, w2) \<Rightarrow> Returns () (b2, logging (Error_periodic_flush e) w2)
             | Blocks s' \<Rightarrow> Blocks s')))"

text \<open>
  \<open>start_periodic_flush\<close> never returns by itself; \<open>n\<close> bounds the rounds that are
  looked at. A round that is suspended for ever suspends the loop.
\<close>

fun start_periodic_flush :: "nat \<Rightarrow> 'm state \<Rightarrow> (unit, 'm state) outcome" where
  "start_periodic_flush 0 s = Returns () s"
| "start_periodic_flush (Suc n) s =
     (case periodic_round s of
        Returns u s' \<Rightarrow> start_periodic_flush n s'
      | Raises e s' \<Rightarrow> Raises e s'
      | Blocks s' \<Rightarrow> Blocks s')"

subsection \<open>Callers of the buffer\<close>

text \<open>One caller adding messages one after the other, awaiting each call.\<close>

fun add_messages :: "'m list \<Rightarrow> 'm state \<Rightarrow> (unit, 'm state) outcome" where
  "add_messages [] s = Returns () s"
| "add_messages (m # ms) s =
     (case add_message m s of
        Returns u s' \<Rightarrow> add_messages ms s'
      | Raises e s' \<Rightarrow> Raises e s'
      | Blocks s' \<Rightarrow> Blocks s')"

text \<open>
  Everything the application does to the global buffer: \<open>send_message\<close> adds a message,
  the shutdown hook flushes, the background task runs rounds of the periodic flush. The
  steps of these coroutines that change the buffer run under its lock or without an
  \<open>await\<close> in between, so a run of the application is a sequence of such requests, each
  leaving the state the next one starts from (also when the request is suspended for ever).
\<close>

datatype 'm request = Add_message 'm | Flush | Periodic_round

fun serve :: "'m request \<Rightarrow> 'm state \<Rightarrow> 'm state" where
  "serve (Add_message m) s = final_state (add_message m s)"
| "serve Flush s = final_state (flush s)"
| "serve Periodic_round s = final_state (periodic_round s)"

fun serve_all :: "'m request list \<Rightarrow> 'm state \<Rightarrow> 'm state" where
  "serve_all [] s = s"
| "serve_all (r # rs) s = serve_all rs (serve r s)"

text \<open>What a step of the executor leaves alone in the buffer: all but the breaker and the trip counter.\<close>

definition frame :: "'m MessageBuffer \<Rightarrow> 'm MessageBuffer \<Rightarrow> bool" where
  "frame b b' \<longleftrightarrow>
     messages b' = messages b \<and> batch_size b' = batch_size b
     \<and> flush_interval b' = flush_interval b \<and> lock b' = lock b
     \<and> last_flush b' = last_flush b \<and> max_retries b' = max_retries b
     \<and> write_concern b' = write_concern b
     \<and> total_messages (stats b') = total_messages (stats b)
     \<and> successful_flushes (stats b') = successful_flushes (stats b)
     \<and> failed_flushes (stats b') = failed_flushes (stats b)
     \<and> retry_count (stats b') = retry_count (stats b)"

text \<open>The bounds of the batch size.\<close>

definition in_bounds :: "'m MessageBuffer \<Rightarrow> bool" where
  "in_bounds b \<longleftrightarrow> 10 \<le> batch_size b \<and> batch_size b \<le> 50"

section \<open>The server side of main.py and routes/group\_routes.py\<close>

text \<open>
  Documents of the two collections, with the fields the handlers read or write. A message
  document written by \<open>send_message\<close> has \<open>type\<close>, \<open>from_user_id\<close>, \<open>status\<close>,
  \<open>read_by\<close> and either \<open>group_id\<close> (an ObjectId) or \<open>to_user_id\<close>; the field
  \<open>to\<close> is the one \<open>delete_group\<close> filters on.
\<close>

record 'oid message_doc =
  doc_type :: string
  from_user_id :: string
  group_id :: "'oid option"
  to_user_id :: "string option"
  doc_to :: "string option"
  status :: string
  read_by :: "string list"

record group_doc =
  name :: string
  member_ids :: "string list"
  created_by :: string

datatype 'oid room = User_room string | Group_room 'oid

datatype notice = Removed_from_group string | Left_group string

datatype 'oid payload =
    Read_receipt 'oid "string list"
  | Group_notification notice string timestamp

datatype server_log =
    Error_marking_read exn
  | Error_deleting_group exn
  | Error_removing_user exn

text \<open>
  The state the handlers work on: the Socket.IO sessions (a session is a dictionary, empty
  when nothing was saved), the two collections, the events emitted so far as
  (event, payload, room), and the log. Every call to the store may raise:
  \<open>db_fault s n\<close> is what the \<open>n\<close>-th call raises, if anything.
\<close>

record 'oid server =
  sessions :: "string \<Rightarrow> (string \<rightharpoonup> string)"
  message_docs :: "'oid \<rightharpoonup> 'oid message_doc"
  group_docs :: "'oid \<rightharpoonup> group_doc"
  emitted :: "(string \<times> 'oid payload \<times> 'oid room) list"
  db_calls :: nat
  db_fault :: "nat \<Rightarrow> exn option"
  server_logged :: "server_log list"

definition db_call :: "'oid server \<Rightarrow> (unit, 'oid server) outcome" where
  "db_call s =
     (let s' = s\<lparr> db_calls := Suc (db_calls s) \<rparr>
      in case db_fault s (db_calls s) of
           None \<Rightarrow> Returns () s'
         | Some e \<Rightarrow> Raises e s')"

text \<open>Sequencing: the second step runs when the first returns.\<close>

definition and_then ::
  "('a, 's) outcome \<Rightarrow> ('a \<Rightarrow> 's \<Rightarrow> ('b, 's) outcome) \<Rightarrow> ('b, 's) outcome" where
  "and_then r f =
     (case r of Returns v s \<Rightarrow> f v s | Raises e s \<Rightarrow> Raises e s | Blocks s \<Rightarrow> Blocks s)"

definition sio_emit :: "string \<Rightarrow> 'oid payload \<Rightarrow> 'oid room \<Rightarrow> 'oid server \<Rightarrow> 'oid server" where
  "sio_emit event p r s = s\<lparr> emitted := emitted s @ [(event, p, r)] \<rparr>"

text \<open>MongoDB's \<open>$addToSet\<close> and \<open>$pull\<close> on an array field.\<close>

definition addToSet :: "'a \<Rightarrow> 'a list \<Rightarrow> 'a list" where
  "addToSet x xs = (if x \<in> set xs then xs else xs @ [x])"

definition pull :: "'a \<Rightarrow> 'a list \<Rightarrow> 'a list" where
  "pull x xs = filter (\<lambda>y. y \<noteq> x) xs"

subsection \<open>main.py: mark\_read\<close>

text \<open>
  The body of \<open>try\<close> in \<open>mark_read\<close> (lines 270-298). \<open>ObjectId\<close> is the bson
  constructor, taken as a parameter: it returns the id or raises \<open>InvalidId\<close>.
  The store calls are, in this order, \<open>get_messages_collection\<close>, \<open>update_one\<close>
  and \<open>find_one\<close>.
\<close>

definition update_one_read :: "'oid \<Rightarrow> string \<Rightarrow> 'oid server \<Rightarrow> 'oid server" where
  "update_one_read msg_id user_id s =
     (case message_docs s msg_id of
        None \<Rightarrow> s
      | Some d \<Rightarrow>
          s\<lparr> message_docs := (message_docs s)
                (msg_id \<mapsto> d\<lparr> status := ''read'', read_by := addToSet user_id (read_by d) \<rparr>) \<rparr>)"

definition notify_read :: "'oid \<Rightarrow> 'oid message_doc \<Rightarrow> 'oid server \<Rightarrow> (unit, 'oid server) outcome" where
  "notify_read msg_id message s =
     (let update = Read_receipt msg_id (read_by message)
      in if doc_type message = ''group''
         then (case group_id message of
                 None \<Rightarrow> Raises KeyError s
               | Some g \<Rightarrow> Returns () (sio_emit ''message_update'' update (Group_room g) s))
         else Returns () (sio_emit ''message_update'' update (User_room (from_user_id message)) s))"

definition mark_read_try ::
  "(string \<Rightarrow> exn + 'oid) \<Rightarrow> string \<Rightarrow> (string \<rightharpoonup> string) \<Rightarrow> 'oid server \<Rightarrow>
   (unit, 'oid server) outcome" where
  "mark_read_try ObjectId sid data s =
     (case sessions s sid ''user_id'' of
        None \<Rightarrow> Returns () s
      | Some user_id \<Rightarrow>
          and_then (db_call s) (\<lambda>u s1.
            (case data ''message_id'' of
               None \<Rightarrow> Raises KeyError s1
             | Some mid \<Rightarrow>
                (case ObjectId mid of
                   Inl e \<Rightarrow> Raises e s1
                 | Inr msg_id \<Rightarrow>
                     and_then (db_call s1) (\<lambda>u s2.
                     and_then (db_call (update_one_read msg_id user_id s2)) (\<lambda>u s3.
                       (case message_docs s3 msg_id of
                          None \<Rightarrow> Returns () s3
                        | Some message \<Rightarrow> notify_read msg_id message s3)))))))"

text \<open>\<open>mark_read\<close>: whatever the body raises is logged and swallowed.\<close>

definition mark_read ::
  "(string \<Rightarrow> exn + 'oid) \<Rightarrow> string \<Rightarrow> (string \<rightharpoonup> string) \<Rightarrow> 'oid server \<Rightarrow>
   (unit, 'oid server) outcome" where
  "mark_read ObjectId sid data s =
     (case mark_read_try ObjectId sid data s of
        Raises e s' \<Rightarrow> Returns () (s'\<lparr> server_logged := server_logged s' @ [Error_marking_read e] \<rparr>)
      | r \<Rightarrow> r)"

subsection \<open>routes/group\_routes.py: delete\_group and remove\_from\_group\<close>

datatype 'oid reply =
    Group_deleted
  | Removed_reply string string string

text \<open>
  The body of \<open>try\<close> in \<open>delete_group\<close> (lines 94-107). The request carries the
  group id and nothing else. The store calls are \<open>get_groups_collection\<close>,
  \<open>get_messages_collection\<close>, \<open>find_one\<close>, \<open>delete_one\<close> and \<open>delete_many\<close>.
\<close>

definition delete_group_try ::
  "(string \<Rightarrow> exn + 'oid) \<Rightarrow> string \<Rightarrow> 'oid server \<Rightarrow> ('oid reply, 'oid server) outcome" where
  "delete_group_try ObjectId gid s =
     and_then (db_call s) (\<lambda>u s1.
     and_then (db_call s1) (\<lambda>u s2.
       (case ObjectId gid of
          Inl e \<Rightarrow> Raises e s2
        | Inr group_oid \<Rightarrow>
            and_then (db_call s2) (\<lambda>u s3.
              (case group_docs s3 group_oid of
                 None \<Rightarrow> Raises (HTTPException 404 (Text ''Group not found'')) s3
               | Some grp \<Rightarrow>
                   and_then (db_call s3) (\<lambda>u s4.
                     (let s5 = s4\<lparr> group_docs := (group_docs s4)(group_oid := None) \<rparr>
                      in and_then (db_call s5) (\<lambda>u s6.
                           Returns Group_deleted
                             (s6\<lparr> message_docs :=
                                   (\<lambda>k. case message_docs s6 k of
                                          None \<Rightarrow> None
                                        | Some d \<Rightarrow>
                                            if doc_type d = ''group'' \<and> doc_to d = Some gid
                                            then None else Some d) \<rparr>)))))))))"

definition delete_group ::
  "(string \<Rightarrow> exn + 'oid) \<Rightarrow> string \<Rightarrow> 'oid server \<Rightarrow> ('oid reply, 'oid server) outcome" where
  "delete_group ObjectId gid s =
     (case delete_group_try ObjectId gid s of
        Raises e s' \<Rightarrow>
          Raises (HTTPException 500 (Str e))
                 (s'\<lparr> server_logged := server_logged s' @ [Error_deleting_group e] \<rparr>)
      | r \<Rightarrow> r)"

text \<open>The \<open>for\<close> loop that notifies the remaining members.\<close>

fun notify_members ::
  "string list \<Rightarrow> string \<Rightarrow> 'oid payload \<Rightarrow> 'oid server \<Rightarrow> 'oid server" where
  "notify_members [] user_id p s = s"
| "notify_members (member_id # rest) user_id p s =
     notify_members rest user_id p
       (if member_id \<noteq> user_id then sio_emit ''notification'' p (User_room member_id) s else s)"

text \<open>\<open>if admin_id:\<close> on an optional string: \<open>None\<close> and the empty string are false.\<close>

definition truthy :: "string option \<Rightarrow> bool" where
  "truthy a \<longleftrightarrow> a \<noteq> None \<and> a \<noteq> Some []"

text \<open>
  The rest of \<open>remove_from_group\<close> once the checks have passed (lines 138-163):
  \<open>update_one\<close> with \<open>$pull\<close>, the notification of the other members of the
  group as it was read, and the answer. \<open>now\<close> is the clock reading put into the
  notification.
\<close>

definition pull_and_notify ::
  "timestamp \<Rightarrow> string \<Rightarrow> 'oid \<Rightarrow> group_doc \<Rightarrow> string \<Rightarrow> string \<Rightarrow> 'oid server \<Rightarrow>
   ('oid reply, 'oid server) outcome" where
  "pull_and_notify now gid group_oid grp user_id admin s =
     and_then (db_call s) (\<lambda>u s1.
       (case group_docs s1 group_oid of
          None \<Rightarrow> Raises (HTTPException 400 (Text ''Failed to remove user from group'')) s1
        | Some g \<Rightarrow>
            if pull user_id (member_ids g) = member_ids g
            then Raises (HTTPException 400 (Text ''Failed to remove user from group'')) s1
            else
              (let s2 = s1\<lparr> group_docs := (group_docs s1)
                              (group_oid \<mapsto> g\<lparr> member_ids := pull user_id (member_ids g) \<rparr>) \<rparr>;
                   notification =
                     Group_notification
                       (if admin \<noteq> user_id then Removed_from_group (name grp)
                        else Left_group (name grp))
                       gid now
               in Returns (Removed_reply gid user_id admin)
                    (notify_members (member_ids grp) user_id notification s2))))"

text \<open>
  The body of \<open>try\<close> in \<open>remove_from_group\<close> (lines 116-163). The store calls are
  \<open>get_groups_collection\<close>, \<open>find_one\<close> and \<open>update_one\<close>.
\<close>

definition remove_from_group_try ::
  "(string \<Rightarrow> exn + 'oid) \<Rightarrow> timestamp \<Rightarrow> string \<Rightarrow> string \<Rightarrow> string option \<Rightarrow> 'oid server \<Rightarrow>
   ('oid reply, 'oid server) outcome" where
  "remove_from_group_try ObjectId now gid user_id admin_id s =
     and_then (db_call s) (\<lambda>u s1.
       (case ObjectId gid of
          Inl e \<Rightarrow> Raises e s1
        | Inr group_oid \<Rightarrow>
            and_then (db_call s1) (\<lambda>u s2.
              (case group_docs s2 group_oid of
                 None \<Rightarrow> Raises (HTTPException 404 (Text ''Group not found'')) s2
               | Some grp \<Rightarrow>
                   if user_id \<notin> set (member_ids grp)
                   then Raises (HTTPException 404 (Text ''User is not in this group'')) s2
                   else if truthy admin_id
                   then (if the admin_id \<noteq> created_by grp
                         then Raises (HTTPException 403
                                (Text ''Only group creator can remove members'')) s2
                         else pull_and_notify now gid group_oid grp user_id (the admin_id) s2)
                   else (if user_id = created_by grp
                         then Raises (HTTPException 400
                                (Text ''Group creator cannot leave the group. Please delete the group instead.'')) s2
                         else pull_and_notify now gid group_oid grp user_id user_id s2)))))"

definition remove_from_group ::
  "(string \<Rightarrow> exn + 'oid) \<Rightarrow> timestamp \<Rightarrow> string \<Rightarrow> string \<Rightarrow> string option \<Rightarrow> 'oid server \<Rightarrow>
   ('oid reply, 'oid server) outcome" where
  "remove_from_group ObjectId now gid user_id admin_id s =
     (case remove_from_group_try ObjectId now gid user_id admin_id s of
        Raises e s' \<Rightarrow>
          Raises (HTTPException 500 (Str e))
                 (s'\<lparr> server_logged := server_logged s' @ [Error_removing_user e] \<rparr>)
      | r \<Rightarrow> r)"

section \<open>Example states\<close>

text \<open>
  A world whose clock advances by one second per reading, whose collection handle is
  always there, whose \<open>insert_many\<close> fails as \<open>faults\<close> says and whose
  \<open>random()\<close> is always one half.
\<close>

definition flaky_world :: "(nat \<Rightarrow> exn option) \<Rightarrow> nat world" where
  "flaky_world faults =
     \<lparr> ticks = 0, time_at = (\<lambda>n. seconds (int n)), collection_calls = 0,
       collection_fault = (\<lambda>n. None), inserted = [], insert_fault = faults, logged = [],
       slept = [], random_at = (\<lambda>n. 1 / 2) \<rparr>"

definition quiet_world :: "nat world" where
  "quiet_world = flaky_world (\<lambda>n. None)"

text \<open>
  A world whose first \<open>insert_many\<close> raises \<open>NetworkTimeout\<close> after 25 seconds: the
  first two clock readings give 0, every later one 25 s.
\<close>

definition stalled_world :: "nat world" where
  "stalled_world =
     (flaky_world (\<lambda>n. if n = 0 then Some NetworkTimeout else None))
       \<lparr> time_at := (\<lambda>n. if n < 2 then 0 else seconds 25) \<rparr>"

text \<open>A buffer that holds the given messages, with the given batch size and breaker.\<close>

definition buffer_with :: "int \<Rightarrow> 'm list \<Rightarrow> CircuitBreaker \<Rightarrow> 'm MessageBuffer" where
  "buffer_with bsize ms cb =
     \<lparr> messages = ms, batch_size = bsize, flush_interval = 2, lock = False,
       last_flush = 0, max_retries = 2, circuit_breaker = cb,
       write_concern = \<lparr> wc_w = 1, wc_wtimeout = 20000 \<rparr>,
       stats = \<lparr> total_messages = int (length ms), successful_flushes = 0, failed_flushes = 0,
                 retry_count = 0, circuit_breaker_trips = 0 \<rparr> \<rparr>"

text \<open>
  A stand-in for the bson constructor in the examples, and a server with one group
  (created by alice, with members alice, bob and carol), one group message and one direct
  message, both sent by alice, and bob's session.
\<close>

definition demo_ObjectId :: "string \<Rightarrow> exn + string" where
  "demo_ObjectId s = (if length s = 24 then Inr s else Inl InvalidId)"

definition demo_server :: "string server" where
  "demo_server =
     \<lparr> sessions = (\<lambda>sid. if sid = ''sid-bob'' then [''user_id'' \<mapsto> ''bob''] else Map.empty),
       message_docs =
         [''0000000000000000000000a1'' \<mapsto>
            \<lparr> doc_type = ''group'', from_user_id = ''alice'',
              group_id = Some ''0000000000000000000000c1'', to_user_id = None, doc_to = None,
              status = ''sent'', read_by = [''alice''] \<rparr>,
          ''0000000000000000000000a2'' \<mapsto>
            \<lparr> doc_type = ''direct'', from_user_id = ''alice'',
              group_id = None, to_user_id = Some ''bob'', doc_to = None,
              status = ''sent'', read_by = [] \<rparr>],
       group_docs =
         [''0000000000000000000000c1'' \<mapsto>
            \<lparr> name = ''team'', member_ids = [''alice'', ''bob'', ''carol''], created_by = ''alice'' \<rparr>],
       emitted = [], db_calls = 0, db_fault = (\<lambda>n. None), server_logged = [] \<rparr>"

section \<open>Properties of the circuit breaker\<close>

lemma record_failure_fields:
  "failure_count (record_failure now cb) = failure_count cb + 1"
  "failure_threshold (record_failure now cb) = failure_threshold cb"
  "reset_timeout (record_failure now cb) = reset_timeout cb"
  "last_failure_time (record_failure now cb) = Some now"
  "is_open (record_failure now cb) \<longleftrightarrow> is_open cb \<or> failure_threshold cb \<le> failure_count cb + 1"
  by (simp_all add: record_failure_def Let_def)

lemma record_failures_threshold:
  "failure_threshold (record_failures ts cb) = failure_threshold cb"
  by (induction ts arbitrary: cb) (simp_all add: record_failure_fields)

lemma record_failures_count:
  "failure_count (record_failures ts cb) = failure_count cb + int (length ts)"
  by (induction ts arbitrary: cb) (simp_all add: record_failure_fields)

lemma record_failures_open:
  "is_open (record_failures ts cb) \<longleftrightarrow>
     is_open cb \<or> (ts \<noteq> [] \<and> failure_threshold cb \<le> failure_count cb + int (length ts))"
proof (induction ts arbitrary: cb)
  case Nil
  show ?case by simp
next
  case (Cons t ts)
  have "is_open (record_failures (t # ts) cb) = is_open (record_failures ts (record_failure t cb))"
    by simp
  also have "\<dots> = (is_open (record_failure t cb) \<or>
      (ts \<noteq> [] \<and> failure_threshold (record_failure t cb)
          \<le> failure_count (record_failure t cb) + int (length ts)))"
    by (rule Cons.IH)
  also have "\<dots> = (is_open cb \<or>
      (t # ts \<noteq> [] \<and> failure_threshold cb \<le> failure_count cb + int (length (t # ts))))"
    by (auto simp: record_failure_fields)
  finally show ?case .
qed

text \<open>
  Claim C3. With the threshold 3 and the cooldown of 60 seconds the buffer gives its
  breaker: \<open>record_failure\<close> adds one to \<open>failure_count\<close> and the breaker is open
  afterwards exactly when it was open before or the new count has reached 3;
  \<open>record_success\<close> sets the count to 0 and closes the breaker; counted from a closed
  breaker with count 0 (a new one, or any one after \<open>record_success\<close>), the breaker is
  open after a run of consecutive failures exactly when the run has at least 3 of them;
  and \<open>can_proceed\<close> on an open breaker answers false, leaving the breaker as it is,
  as long as no more than 60 seconds lie between the last failure and the clock reading,
  and answers true once more than 60 seconds do, whatever the count was.
\<close>

theorem breaker_opens_on_third_failure:
  assumes "failure_threshold cb = 3" and "reset_timeout cb = 60"
  shows "failure_count (record_failure now cb) = failure_count cb + 1
       \<and> (is_open (record_failure now cb) \<longleftrightarrow> is_open cb \<or> 3 \<le> failure_count cb + 1)
       \<and> failure_count (record_success cb) = 0 \<and> \<not> is_open (record_success cb)
       \<and> (is_open (record_failures ts (record_success cb)) \<longleftrightarrow> 3 \<le> length ts)
       \<and> (is_open (record_failures ts buffer_breaker) \<longleftrightarrow> 3 \<le> length ts)
       \<and> (is_open cb \<and> last_failure_time cb = Some t \<longrightarrow>
            can_proceed now cb =
              (if now - t \<le> seconds 60 then Inr (False, cb)
               else Inr (True, cb\<lparr> failure_count := 0, is_open := False \<rparr>)))"
  using assms
  by (auto simp: record_failure_fields record_failures_open record_success_def
        buffer_breaker_def CircuitBreaker_init_def can_proceed_def)


theorem breaker_opens_on_third_failure_witness:
  "failure_threshold \<lparr> failure_count = 3, failure_threshold = 3, reset_timeout = 60,
       last_failure_time = Some 30, is_open = True \<rparr> = 3
   \<and> is_open (record_failures [10, 20, 30] buffer_breaker)
   \<and> \<not> is_open (record_failures [10, 20] buffer_breaker)
   \<and> can_proceed (30 + seconds 60)
        \<lparr> failure_count = 3, failure_threshold = 3, reset_timeout = 60,
          last_failure_time = Some 30, is_open = True \<rparr>
       = Inr (False, \<lparr> failure_count = 3, failure_threshold = 3, reset_timeout = 60,
          last_failure_time = Some 30, is_open = True \<rparr>)
   \<and> can_proceed (31 + seconds 60)
        \<lparr> failure_count = 3, failure_threshold = 3, reset_timeout = 60,
          last_failure_time = Some 30, is_open = True \<rparr>
       = Inr (True, \<lparr> failure_count = 0, failure_threshold = 3, reset_timeout = 60,
          last_failure_time = Some 30, is_open = False \<rparr>)"
  using breaker_opens_on_third_failure
          [where cb = "\<lparr> failure_count = 3, failure_threshold = 3, reset_timeout = 60,
                 last_failure_time = Some 30, is_open = True \<rparr>" and ts = "[10, 20, 30]" and t = 30 and now = "30 + seconds 60"]
        breaker_opens_on_third_failure
          [where cb = "\<lparr> failure_count = 3, failure_threshold = 3, reset_timeout = 60,
                 last_failure_time = Some 30, is_open = True \<rparr>" and ts = "[10, 20]" and t = 30 and now = "31 + seconds 60"]
  by (simp add: seconds_def)

text \<open>
  Claim C9. \<open>can_proceed\<close> is not a pure query. On an open breaker (threshold 3,
  cooldown 60 seconds) whose last failure lies more than 60 seconds before the clock
  reading, one call answers true and leaves a different breaker: the count is 0 and the
  breaker is closed. From that breaker on, a run of consecutive failures opens it again
  exactly when the run has at least 3 of them.
\<close>

theorem can_proceed_closes_breaker:
  assumes "is_open cb" and "last_failure_time cb = Some t"
    and "reset_timeout cb = 60" and "failure_threshold cb = 3"
    and "now - t > seconds 60"
  shows "can_proceed now cb = Inr (True, cb\<lparr> failure_count := 0, is_open := False \<rparr>)
       \<and> cb\<lparr> failure_count := 0, is_open := False \<rparr> \<noteq> cb
       \<and> (is_open (record_failures ts (cb\<lparr> failure_count := 0, is_open := False \<rparr>))
            \<longleftrightarrow> 3 \<le> length ts)"
proof -
  have "cb\<lparr> failure_count := 0, is_open := False \<rparr> \<noteq> cb"
  proof
    assume "cb\<lparr> failure_count := 0, is_open := False \<rparr> = cb"
    then have "is_open (cb\<lparr> failure_count := 0, is_open := False \<rparr>) = is_open cb"
      by simp
    with assms(1) show False by simp
  qed
  then show ?thesis
    using assms by (auto simp: can_proceed_def record_failures_open)
qed

theorem can_proceed_closes_breaker_witness:
  "can_proceed (31 + seconds 60)
      \<lparr> failure_count = 7, failure_threshold = 3, reset_timeout = 60,
        last_failure_time = Some 30, is_open = True \<rparr>
     = Inr (True, \<lparr> failure_count = 0, failure_threshold = 3, reset_timeout = 60,
        last_failure_time = Some 30, is_open = False \<rparr>)
   \<and> \<not> is_open (record_failures [100, 200]
        \<lparr> failure_count = 0, failure_threshold = 3, reset_timeout = 60,
          last_failure_time = Some 30, is_open = False \<rparr>)
   \<and> is_open (record_failures [100, 200, 300]
        \<lparr> failure_count = 0, failure_threshold = 3, reset_timeout = 60,
          last_failure_time = Some 30, is_open = False \<rparr>)"
  using can_proceed_closes_breaker
          [where cb = "\<lparr> failure_count = 7, failure_threshold = 3, reset_timeout = 60,
                 last_failure_time = Some 30, is_open = True \<rparr>" and t = 30 and now = "31 + seconds 60" and ts = "[100, 200]"]
        can_proceed_closes_breaker
          [where cb = "\<lparr> failure_count = 7, failure_threshold = 3, reset_timeout = 60,
                 last_failure_time = Some 30, is_open = True \<rparr>" and t = 30 and now = "31 + seconds 60" and ts = "[100, 200, 300]"]
  by (simp add: seconds_def)

section \<open>The executor: frame, retry, attempts\<close>

lemma frame_refl: "frame b b"
  by (simp add: frame_def)

lemma frame_trans: "frame b b1 \<Longrightarrow> frame b1 b2 \<Longrightarrow> frame b b2"
  by (simp add: frame_def)

lemma insert_chunks_not_Blocks: "insert_chunks cs w \<noteq> Blocks w'"
  by (induction cs arbitrary: w) (auto simp: insert_many_def Let_def split: option.splits)

lemma try_insert_not_Blocks: "try_insert ms w \<noteq> Blocks w'"
  by (auto simp: try_insert_def get_messages_collection_def Let_def insert_chunks_not_Blocks
      split: option.splits)

lemma attempt_not_Blocks: "bulk_insert_attempt ms s \<noteq> Blocks s'"
  by (auto simp: bulk_insert_attempt_def try_insert_not_Blocks
      split: prod.splits sum.splits bool.splits outcome.splits)

lemma attempt_frame: "frame b (fst (final_state (bulk_insert_attempt ms (b, w))))"
  by (auto simp: bulk_insert_attempt_def frame_def count_trip_def
      split: prod.splits sum.splits bool.splits outcome.splits)

lemma retry_unfold:
  "retry_exception listed mt target start k n (b, w) =
     (case target (b, snd (datetime_now w)) of
        Raises e s' \<Rightarrow>
          if listed e \<and> 1 < n \<and> fst (datetime_now w) - start < mt
          then retry_exception listed mt target start (Suc k) (n - 1)
                 (fst s',
                  asyncio_sleep (next_wait k (fst (datetime_now w) - start) mt (snd s')) (snd s'))
          else Raises e s'
      | Returns v s' \<Rightarrow> Returns v s'
      | Blocks s' \<Rightarrow> Blocks s')"
  by (subst retry_exception.simps) (simp add: case_prod_beta)

lemma retry_frame:
  "frame b (fst (final_state (retry_exception listed mt (bulk_insert_attempt ms) start k n (b, w))))"
proof (induction n arbitrary: b w k rule: less_induct)
  case (less n)
  show ?case
  proof (cases "bulk_insert_attempt ms (b, snd (datetime_now w))")
    case (Returns v s')
    with attempt_frame [of b ms "snd (datetime_now w)"] show ?thesis
      by (subst retry_unfold) simp
  next
    case (Raises e s')
    obtain b1 w1 where s': "s' = (b1, w1)" by (cases s')
    from Raises attempt_frame [of b ms "snd (datetime_now w)"] have f1: "frame b b1"
      by (simp add: s')
    show ?thesis
    proof (cases "listed e \<and> 1 < n \<and> fst (datetime_now w) - start < mt")
      case True
      then have "n - 1 < n" by simp
      from less.IH [OF this, where b = b1 and k = "Suc k"
          and w = "asyncio_sleep (next_wait k (fst (datetime_now w) - start) mt w1) w1"]
        f1 True Raises show ?thesis
        by (subst retry_unfold) (auto simp: s' intro: frame_trans)
    next
      case False
      with Raises f1 show ?thesis
        by (subst retry_unfold) (auto simp: s')
    qed
  next
    case (Blocks s')
    with attempt_not_Blocks show ?thesis by blast
  qed
qed

lemma perform_frame: "frame b (fst (final_state (perform_bulk_insert ms (b, w))))"
  by (simp add: perform_bulk_insert_def on_exception_def retry_frame split: prod.splits)

lemma retry_not_Blocks:
  "retry_exception listed mt (bulk_insert_attempt ms) start k n s \<noteq> Blocks s'"
proof (induction n arbitrary: s k rule: less_induct)
  case (less n)
  obtain b w where s: "s = (b, w)" by (cases s)
  show ?case
  proof (cases "bulk_insert_attempt ms (b, snd (datetime_now w))")
    case (Returns v s1)
    then show ?thesis by (simp add: s) (subst retry_unfold, simp)
  next
    case (Raises e s1)
    show ?thesis
    proof (cases "listed e \<and> 1 < n \<and> fst (datetime_now w) - start < mt")
      case True
      then have "n - 1 < n" by simp
      from less.IH [OF this] True Raises show ?thesis
        by (simp add: s) (subst retry_unfold, auto)
    next
      case False
      with Raises show ?thesis
        by (simp add: s) (subst retry_unfold, auto)
    qed
  next
    case (Blocks s1)
    with attempt_not_Blocks show ?thesis by blast
  qed
qed

lemma perform_not_Blocks: "perform_bulk_insert ms s \<noteq> Blocks s'"
  by (simp add: perform_bulk_insert_def on_exception_def retry_not_Blocks split: prod.splits)

lemma insert_chunks_clock:
  "ticks (final_state (insert_chunks cs w)) = ticks w
   \<and> time_at (final_state (insert_chunks cs w)) = time_at w
   \<and> logged (final_state (insert_chunks cs w)) = logged w"
  by (induction cs arbitrary: w) (auto simp: insert_many_def Let_def split: option.splits)

lemma try_insert_clock:
  "ticks (final_state (try_insert ms w)) = ticks w
   \<and> time_at (final_state (try_insert ms w)) = time_at w
   \<and> logged (final_state (try_insert ms w)) = logged w"
  using insert_chunks_clock [of "chunks ms" "w\<lparr> collection_calls := Suc (collection_calls w) \<rparr>"]
  by (auto simp: try_insert_def get_messages_collection_def Let_def split: option.splits)

lemma attempt_raises:
  assumes "is_open (circuit_breaker b) \<longrightarrow> last_failure_time (circuit_breaker b) \<noteq> None"
    and "bulk_insert_attempt ms (b, w) = Raises e (b', w')"
  shows "circuit_breaker b' =
           record_failure (time_at w (ticks w' - 1))
             (if is_open (circuit_breaker b)
              then (circuit_breaker b)\<lparr> failure_count := 0, is_open := False \<rparr>
              else circuit_breaker b)
         \<and> circuit_breaker_trips (stats b') = circuit_breaker_trips (stats b) + 1
         \<and> logged w' = logged w @ [Error_bulk_insert e]"
proof (cases "is_open (circuit_breaker b)")
  case False
  from try_insert_clock [of ms w] assms(2) False show ?thesis
    by (auto simp: bulk_insert_attempt_def breaker_gate_def can_proceed_def datetime_now_def
          logging_def count_trip_def split: outcome.splits)
next
  case True
  with assms(1) obtain t where t: "last_failure_time (circuit_breaker b) = Some t" by auto
  from try_insert_clock [of ms "w\<lparr> ticks := Suc (ticks w) \<rparr>"] assms(2) True t show ?thesis
    by (auto simp: bulk_insert_attempt_def breaker_gate_def can_proceed_def datetime_now_def
          logging_def count_trip_def split: outcome.splits if_splits)
qed

lemma perform_two_attempts:
  "perform_bulk_insert ms (b, w) =
     (case bulk_insert_attempt ms (b, w\<lparr> ticks := ticks w + 2 \<rparr>) of
        Raises e s1 \<Rightarrow>
          if retried_class e \<and> time_at w (ticks w + 1) - time_at w (ticks w) < seconds 10
          then bulk_insert_attempt ms
                 (fst s1,
                  (asyncio_sleep
                     (next_wait 0 (time_at w (ticks w + 1) - time_at w (ticks w)) (seconds 10) (snd s1))
                     (snd s1))\<lparr> ticks := ticks (snd s1) + 1 \<rparr>)
          else Raises e s1
      | Returns v s1 \<Rightarrow> Returns v s1
      | Blocks s1 \<Rightarrow> Blocks s1)"
proof -
  have second: "retry_exception retried_class (seconds 10) (bulk_insert_attempt ms) start k (Suc 0) s1
      = bulk_insert_attempt ms (fst s1, (snd s1)\<lparr> ticks := Suc (ticks (snd s1)) \<rparr>)" for start k s1
  proof (cases s1)
    case (Pair b1 w1)
    show ?thesis
      unfolding Pair
      by (subst retry_unfold) (auto simp: datetime_now_def split: outcome.splits)
  qed
  show ?thesis
    by (simp add: perform_bulk_insert_def on_exception_def datetime_now_def)
       (subst retry_unfold,
        auto simp: datetime_now_def second eval_nat_numeral asyncio_sleep_def split: outcome.splits)
qed

lemma next_wait_bounds:
  assumes "0 \<le> random_at w (length (slept w))" and "random_at w (length (slept w)) \<le> 1"
    and "elapsed < max_time"
  shows "0 \<le> next_wait k elapsed max_time w"
    and "next_wait k elapsed max_time w \<le> 2 ^ k"
    and "next_wait k elapsed max_time w \<le> of_int (max_time - elapsed) / 1000000"
proof -
  let ?r = "random_at w (length (slept w))"
  have j: "full_jitter (expo k) w = 2 ^ k * ?r"
    by (simp add: full_jitter_def expo_def)
  have a: "0 \<le> (2::rat) ^ k * ?r" using assms(1) by simp
  have "(2::rat) ^ k * ?r \<le> 2 ^ k * 1"
    using assms(2) by (intro mult_left_mono) simp_all
  then have b: "(2::rat) ^ k * ?r \<le> 2 ^ k" by simp
  have c: "(0::rat) \<le> of_int (max_time - elapsed) / 1000000"
    using assms(3) by simp
  show "0 \<le> next_wait k elapsed max_time w"
    unfolding next_wait_def j using a c by (rule min.boundedI)
  show "next_wait k elapsed max_time w \<le> 2 ^ k"
    unfolding next_wait_def j using b by (rule min.coboundedI1)
  show "next_wait k elapsed max_time w \<le> of_int (max_time - elapsed) / 1000000"
    unfolding next_wait_def j by (rule min.cobounded2)
qed

lemma attempt_shed:
  assumes "is_open (circuit_breaker b)" and "last_failure_time (circuit_breaker b) = Some t"
    and "time_at w (ticks w) - t \<le> seconds (reset_timeout (circuit_breaker b))"
  shows "bulk_insert_attempt ms (b, w)
           = Returns False (b, logging Warning_breaker_open (w\<lparr> ticks := Suc (ticks w) \<rparr>))"
  using assms
  by (simp add: bulk_insert_attempt_def breaker_gate_def can_proceed_def datetime_now_def)

lemma perform_shed:
  assumes "is_open (circuit_breaker b)" and "last_failure_time (circuit_breaker b) = Some t"
    and "time_at w (ticks w + 2) - t \<le> seconds (reset_timeout (circuit_breaker b))"
  shows "perform_bulk_insert ms (b, w)
           = Returns False (b, logging Warning_breaker_open (w\<lparr> ticks := ticks w + 3 \<rparr>))"
proof -
  let ?w2 = "w\<lparr> ticks := Suc (Suc (ticks w)) \<rparr>"
  have "bulk_insert_attempt ms (b, ?w2)
          = Returns False (b, logging Warning_breaker_open (?w2\<lparr> ticks := Suc (ticks ?w2) \<rparr>))"
    using assms by (intro attempt_shed) simp_all
  then show ?thesis
    by (simp add: perform_bulk_insert_def on_exception_def datetime_now_def retry_unfold eval_nat_numeral)
qed

section \<open>flush\<close>

lemma flush_unfold:
  "\<not> lock b \<Longrightarrow> messages b \<noteq> [] \<Longrightarrow>
   flush (b, w) =
     (case perform_bulk_insert (messages b) (b\<lparr> lock := True, messages := [] \<rparr>, w) of
        Returns True (b1, w1) \<Rightarrow>
          Returns () ((count_successful_flush (b1\<lparr> last_flush := fst (datetime_now w1) \<rparr>))
                        \<lparr> lock := False \<rparr>, snd (datetime_now w1))
      | Returns False (b1, w1) \<Rightarrow>
          Returns () ((count_failed_flush b1)
                        \<lparr> messages := messages b1 @ messages b, lock := False \<rparr>, w1)
      | Raises e (b1, w1) \<Rightarrow>
          Returns () ((count_failed_flush b1)
                        \<lparr> messages := messages b1 @ messages b,
                          batch_size := max 10 (batch_size b1 div 2), lock := False \<rparr>,
                      logging (Error_flushing e) w1)
      | Blocks s' \<Rightarrow> Blocks s')"
  by (simp add: flush_def with_lock_def flush_locked_def Let_def count_failed_flush_def
        count_successful_flush_def case_prod_beta
      split: outcome.splits bool.splits prod.splits)

lemmas run_defs = flaky_world_def MessageBuffer_init_def datetime_now_def CircuitBreaker_init_def
  perform_bulk_insert_def on_exception_def retry_exception.simps bulk_insert_attempt_def
  breaker_gate_def can_proceed_def try_insert_def get_messages_collection_def chunks_def
  range_step_def chunk_size_def insert_many_def logging_def record_failure_def record_success_def
  asyncio_sleep_def next_wait_def full_jitter_def expo_def
  count_trip_def seconds_def Let_def

lemmas eval_defs = run_defs buffer_with_def flush_def with_lock_def flush_locked_def
  count_failed_flush_def count_successful_flush_def

text \<open>
  Claim C2. When \<open>flush\<close> runs with the lock free on a buffer with pending records and
  the executor, called as \<open>flush\<close> calls it, raises, then \<open>flush\<close> returns with the
  lock released, the pending list is the snapshot again, \<open>failed_flushes\<close> has grown by
  exactly 1, and the batch size is the larger of 10 and half the old one, so never below 10.
\<close>

theorem flush_failure_restores_and_shrinks:
  assumes "\<not> lock b" and "messages b \<noteq> []"
    and "perform_bulk_insert (messages b) (b\<lparr> lock := True, messages := [] \<rparr>, w)
           = Raises e (b1, w1)"
  shows "\<exists>b' w'. flush (b, w) = Returns () (b', w')
           \<and> messages b' = messages b
           \<and> failed_flushes (stats b') = failed_flushes (stats b) + 1
           \<and> batch_size b' = max 10 (batch_size b div 2)
           \<and> 10 \<le> batch_size b'
           \<and> \<not> lock b'"
proof -
  from perform_frame [of "b\<lparr> lock := True, messages := [] \<rparr>" "messages b" w] assms(3)
  have "frame (b\<lparr> lock := True, messages := [] \<rparr>) b1" by simp
  then have "messages b1 = []" "batch_size b1 = batch_size b"
    "failed_flushes (stats b1) = failed_flushes (stats b)"
    by (simp_all add: frame_def)
  then show ?thesis
    using assms by (simp add: flush_unfold count_failed_flush_def)
qed

text \<open>
  Scenario B: ten records are pending, the batch size is 10 and every \<open>insert_many\<close>
  raises \<open>ConnectionFailure\<close>. Both attempts fail, the ten records are pending again,
  one failed flush is counted and the batch size is 10. With a batch size of 35 the same
  failure leaves 17.
\<close>

theorem flush_failure_restores_and_shrinks_witness:
  "messages (fst (final_state (flush
      (buffer_with 10 [1, 2, 3, 4, 5, 6, 7, 8, 9, 10 :: nat] buffer_breaker,
       flaky_world (\<lambda>n. Some ConnectionFailure)))))
     = [1, 2, 3, 4, 5, 6, 7, 8, 9, 10]
   \<and> failed_flushes (stats (fst (final_state (flush
      (buffer_with 10 [1, 2, 3, 4, 5, 6, 7, 8, 9, 10 :: nat] buffer_breaker,
       flaky_world (\<lambda>n. Some ConnectionFailure)))))) = 1
   \<and> batch_size (fst (final_state (flush
      (buffer_with 10 [1, 2, 3, 4, 5, 6, 7, 8, 9, 10 :: nat] buffer_breaker,
       flaky_world (\<lambda>n. Some ConnectionFailure))))) = 10
   \<and> batch_size (fst (final_state (flush
      (buffer_with 35 [1, 2, 3 :: nat] buffer_breaker,
       flaky_world (\<lambda>n. Some ConnectionFailure))))) = 17"
proof -
  let ?w = "flaky_world (\<lambda>n. Some ConnectionFailure) :: nat world"
  let ?b = "buffer_with 10 [1, 2, 3, 4, 5, 6, 7, 8, 9, 10 :: nat] buffer_breaker"
  let ?c = "buffer_with 35 [1, 2, 3 :: nat] buffer_breaker"
  have nl: "\<not> lock ?b" "\<not> lock ?c" and ne: "messages ?b \<noteq> []" "messages ?c \<noteq> []"
    by (simp_all add: buffer_with_def)
  obtain b1 w1 where r1: "perform_bulk_insert (messages ?b) (?b\<lparr> lock := True, messages := [] \<rparr>, ?w)
      = Raises ConnectionFailure (b1, w1)"
    by (auto simp: eval_defs buffer_breaker_def numeral_2_eq_2)
  obtain c1 v1 where r2: "perform_bulk_insert (messages ?c) (?c\<lparr> lock := True, messages := [] \<rparr>, ?w)
      = Raises ConnectionFailure (c1, v1)"
    by (auto simp: eval_defs buffer_breaker_def)
  from flush_failure_restores_and_shrinks [OF nl(1) ne(1) r1]
  have a: "messages (fst (final_state (flush (?b, ?w)))) = [1, 2, 3, 4, 5, 6, 7, 8, 9, 10]
     \<and> failed_flushes (stats (fst (final_state (flush (?b, ?w))))) = 1
     \<and> batch_size (fst (final_state (flush (?b, ?w)))) = 10"
    by (auto simp: buffer_with_def)
  from flush_failure_restores_and_shrinks [OF nl(2) ne(2) r2]
  have b: "batch_size (fst (final_state (flush (?c, ?w)))) = 17"
    by (auto simp: buffer_with_def)
  from a b show ?thesis by simp
qed

text \<open>
  Claim C4. A flush (lock free, records pending) that finds the breaker refusing, that is,
  \<open>can_proceed\<close> answers false at the clock reading of the executor's gate (the third
  reading of the flush, after the two of the retry decorator), returns with no call of
  \<open>insert_many\<close> and none of \<open>get_messages_collection\<close>; the snapshot is pending
  again, the breaker and its failure count are unchanged, no trip is counted, one failed
  flush is counted, the batch size is unchanged and the only trace is the warning logged.
\<close>

theorem flush_while_breaker_open_sheds:
  assumes "\<not> lock b" and "messages b \<noteq> []"
    and "can_proceed (time_at w (ticks w + 2)) (circuit_breaker b) = Inr (False, cb')"
  shows "\<exists>b' w'. flush (b, w) = Returns () (b', w')
           \<and> inserted w' = inserted w \<and> collection_calls w' = collection_calls w
           \<and> messages b' = messages b
           \<and> circuit_breaker b' = circuit_breaker b
           \<and> failure_count (circuit_breaker b') = failure_count (circuit_breaker b)
           \<and> circuit_breaker_trips (stats b') = circuit_breaker_trips (stats b)
           \<and> failed_flushes (stats b') = failed_flushes (stats b) + 1
           \<and> batch_size b' = batch_size b
           \<and> logged w' = logged w @ [Warning_breaker_open]"
proof -
  let ?cb = "circuit_breaker b"
  from assms(3) have op: "is_open ?cb"
    by (auto simp: can_proceed_def split: if_splits)
  from assms(3) op obtain t where t: "last_failure_time ?cb = Some t"
    by (cases "last_failure_time ?cb") (auto simp: can_proceed_def)
  from assms(3) op t have le: "time_at w (ticks w + 2) - t \<le> seconds (reset_timeout ?cb)"
    by (auto simp: can_proceed_def split: if_splits)
  have "perform_bulk_insert (messages b) (b\<lparr> lock := True, messages := [] \<rparr>, w)
          = Returns False (b\<lparr> lock := True, messages := [] \<rparr>,
                           logging Warning_breaker_open (w\<lparr> ticks := ticks w + 3 \<rparr>))"
    using op t le by (intro perform_shed) simp_all
  then show ?thesis
    using assms(1,2) by (simp add: flush_unfold count_failed_flush_def logging_def)
qed

text \<open>
  The breaker has just opened on its third failure; two seconds later a flush of three
  records is shed: nothing reaches the store, the records stay pending, the count is 3.
\<close>

theorem flush_while_breaker_open_sheds_witness:
  "can_proceed (seconds 2) (record_failures [0, 0, 0] buffer_breaker)
     = Inr (False, record_failures [0, 0, 0] buffer_breaker)
   \<and> inserted (snd (final_state (flush
        (buffer_with 10 [1, 2, 3 :: nat] (record_failures [0, 0, 0] buffer_breaker),
         flaky_world (\<lambda>n. None))))) = []
   \<and> collection_calls (snd (final_state (flush
        (buffer_with 10 [1, 2, 3 :: nat] (record_failures [0, 0, 0] buffer_breaker),
         flaky_world (\<lambda>n. None))))) = 0
   \<and> messages (fst (final_state (flush
        (buffer_with 10 [1, 2, 3 :: nat] (record_failures [0, 0, 0] buffer_breaker),
         flaky_world (\<lambda>n. None))))) = [1, 2, 3]
   \<and> failure_count (circuit_breaker (fst (final_state (flush
        (buffer_with 10 [1, 2, 3 :: nat] (record_failures [0, 0, 0] buffer_breaker),
         flaky_world (\<lambda>n. None)))))) = 3
   \<and> failed_flushes (stats (fst (final_state (flush
        (buffer_with 10 [1, 2, 3 :: nat] (record_failures [0, 0, 0] buffer_breaker),
         flaky_world (\<lambda>n. None)))))) = 1"
proof -
  let ?cb = "record_failures [0, 0, 0] buffer_breaker"
  let ?b = "buffer_with 10 [1, 2, 3 :: nat] ?cb"
  let ?w = "flaky_world (\<lambda>n. None) :: nat world"
  have nl: "\<not> lock ?b" and ne: "messages ?b \<noteq> []"
    by (simp_all add: buffer_with_def)
  have cp: "can_proceed (seconds 2) ?cb = Inr (False, ?cb)"
    by (simp add: can_proceed_def buffer_breaker_def CircuitBreaker_init_def record_failure_def
          seconds_def)
  then have gate: "can_proceed (time_at ?w (ticks ?w + 2)) (circuit_breaker ?b) = Inr (False, ?cb)"
    by (simp add: flaky_world_def buffer_with_def)
  from flush_while_breaker_open_sheds [OF nl ne gate] cp show ?thesis
    by (auto simp: buffer_with_def flaky_world_def buffer_breaker_def CircuitBreaker_init_def
          record_failure_def)
qed

section \<open>The retry policy of the executor\<close>

text \<open>
  Claim C5, amended. For a breaker that is well formed (open only with a recorded failure
  time): the executor makes at most two attempts. The second attempt is made only when the
  first raised one of the four listed classes and less than 10 seconds had passed on the
  decorator's clock when the first attempt started (the deadline is tested on the time
  read before the attempt, so the retry itself may start later than 10 seconds after the
  start); an exception of any other class, and a listed one when that test fails,
  propagates after the first attempt; whatever the second attempt does is the executor's
  result. Before the retry the decorator sleeps for the first wait of an exponential
  backoff with full jitter: the \<open>k\<close>-th wait is a random fraction of \<open>2 ^ k\<close> seconds,
  capped at what is left of the 10 seconds, so it lies between 0 and \<open>2 ^ k\<close> seconds.
  Every attempt that raises has logged the error and called \<open>record_failure\<close> (on the
  breaker as the gate left it) before raising again. When the first attempt raises a
  listed class and its \<open>record_failure\<close> opens the breaker, the retry is refused by the
  gate: the executor returns \<open>False\<close> and raises nothing.
\<close>

theorem perform_bulk_insert_retry_policy:
  assumes "is_open (circuit_breaker b) \<longrightarrow> last_failure_time (circuit_breaker b) \<noteq> None"
  shows "perform_bulk_insert ms (b, w) =
           (case bulk_insert_attempt ms (b, w\<lparr> ticks := ticks w + 2 \<rparr>) of
              Raises e s1 \<Rightarrow>
                if retried_class e \<and> time_at w (ticks w + 1) - time_at w (ticks w) < seconds 10
                then bulk_insert_attempt ms
                       (fst s1,
                        (asyncio_sleep
                           (next_wait 0 (time_at w (ticks w + 1) - time_at w (ticks w)) (seconds 10)
                              (snd s1))
                           (snd s1))\<lparr> ticks := ticks (snd s1) + 1 \<rparr>)
                else Raises e s1
            | Returns v s1 \<Rightarrow> Returns v s1
            | Blocks s1 \<Rightarrow> Blocks s1)
       \<and> (\<forall>k elapsed w0.
             0 \<le> random_at w0 (length (slept w0)) \<and> random_at w0 (length (slept w0)) \<le> 1
             \<and> elapsed < seconds 10 \<longrightarrow>
             0 \<le> next_wait k elapsed (seconds 10) w0
             \<and> next_wait k elapsed (seconds 10) w0 \<le> 2 ^ k
             \<and> next_wait k elapsed (seconds 10) w0 \<le> of_int (seconds 10 - elapsed) / 1000000)
       \<and> (\<forall>w0 e b' w'. bulk_insert_attempt ms (b, w0) = Raises e (b', w') \<longrightarrow>
             circuit_breaker b' =
               record_failure (time_at w0 (ticks w' - 1))
                 (if is_open (circuit_breaker b)
                  then (circuit_breaker b)\<lparr> failure_count := 0, is_open := False \<rparr>
                  else circuit_breaker b)
             \<and> logged w' = logged w0 @ [Error_bulk_insert e])
       \<and> (\<forall>e b1 w1 t. bulk_insert_attempt ms (b, w\<lparr> ticks := ticks w + 2 \<rparr>) = Raises e (b1, w1)
             \<and> retried_class e
             \<and> time_at w (ticks w + 1) - time_at w (ticks w) < seconds 10
             \<and> is_open (circuit_breaker b1) \<and> last_failure_time (circuit_breaker b1) = Some t
             \<and> time_at w1 (ticks w1 + 1) - t \<le> seconds (reset_timeout (circuit_breaker b1))
             \<longrightarrow> perform_bulk_insert ms (b, w)
                   = Returns False
                       (b1, logging Warning_breaker_open
                              ((asyncio_sleep
                                  (next_wait 0 (time_at w (ticks w + 1) - time_at w (ticks w))
                                     (seconds 10) w1) w1)
                                 \<lparr> ticks := ticks w1 + 2 \<rparr>)))"
proof (intro conjI allI impI)
  show "perform_bulk_insert ms (b, w) =
           (case bulk_insert_attempt ms (b, w\<lparr> ticks := ticks w + 2 \<rparr>) of
              Raises e s1 \<Rightarrow>
                if retried_class e \<and> time_at w (ticks w + 1) - time_at w (ticks w) < seconds 10
                then bulk_insert_attempt ms
                       (fst s1,
                        (asyncio_sleep
                           (next_wait 0 (time_at w (ticks w + 1) - time_at w (ticks w)) (seconds 10)
                              (snd s1))
                           (snd s1))\<lparr> ticks := ticks (snd s1) + 1 \<rparr>)
                else Raises e s1
            | Returns v s1 \<Rightarrow> Returns v s1
            | Blocks s1 \<Rightarrow> Blocks s1)"
    by (rule perform_two_attempts)
next
  fix k elapsed and w0 :: "'c world"
  assume h: "0 \<le> random_at w0 (length (slept w0)) \<and> random_at w0 (length (slept w0)) \<le> 1
             \<and> elapsed < seconds 10"
  from h have h1: "0 \<le> random_at w0 (length (slept w0))"
    and h2: "random_at w0 (length (slept w0)) \<le> 1" and h3: "elapsed < seconds 10"
    by simp_all
  from next_wait_bounds [OF h1 h2 h3, of k]
  show "0 \<le> next_wait k elapsed (seconds 10) w0"
    and "next_wait k elapsed (seconds 10) w0 \<le> 2 ^ k"
    and "next_wait k elapsed (seconds 10) w0 \<le> of_int (seconds 10 - elapsed) / 1000000"
    by simp_all
next
  fix w0 e b' w'
  assume "bulk_insert_attempt ms (b, w0) = Raises e (b', w')"
  from attempt_raises [OF assms this]
  show "circuit_breaker b' =
               record_failure (time_at w0 (ticks w' - 1))
                 (if is_open (circuit_breaker b)
                  then (circuit_breaker b)\<lparr> failure_count := 0, is_open := False \<rparr>
                  else circuit_breaker b)"
    and "logged w' = logged w0 @ [Error_bulk_insert e]"
    by simp_all
next
  fix e b1 w1 t
  assume h: "bulk_insert_attempt ms (b, w\<lparr> ticks := ticks w + 2 \<rparr>) = Raises e (b1, w1)
             \<and> retried_class e
             \<and> time_at w (ticks w + 1) - time_at w (ticks w) < seconds 10
             \<and> is_open (circuit_breaker b1) \<and> last_failure_time (circuit_breaker b1) = Some t
             \<and> time_at w1 (ticks w1 + 1) - t \<le> seconds (reset_timeout (circuit_breaker b1))"
  let ?d = "next_wait 0 (time_at w (ticks w + 1) - time_at w (ticks w)) (seconds 10) w1"
  let ?w = "(asyncio_sleep ?d w1)\<lparr> ticks := ticks w1 + 1 \<rparr>"
  have "bulk_insert_attempt ms (b1, ?w)
          = Returns False (b1, logging Warning_breaker_open (?w\<lparr> ticks := Suc (ticks ?w) \<rparr>))"
    using h by (intro attempt_shed [where t = t]) (simp_all add: asyncio_sleep_def)
  with h show "perform_bulk_insert ms (b, w)
                 = Returns False
                     (b1, logging Warning_breaker_open
                            ((asyncio_sleep ?d w1)\<lparr> ticks := ticks w1 + 2 \<rparr>))"
    by (simp add: perform_two_attempts)
qed

text \<open>
  Against C5 as worded, on two counts. The re-raise: the breaker has counted two failures
  and is closed; every \<open>insert_many\<close> raises \<open>OperationFailure\<close>. The first attempt
  raises, but the executor raises nothing: it returns \<open>False\<close>, and the flush of the same
  records leaves the batch size at 20 instead of halving it. The hard deadline: in the
  stalled world the first attempt fails 25 seconds after the start, which is the time
  \<open>record_failure\<close> stores; the decorator still sleeps (half a second) and makes the
  second attempt, which inserts the chunk and returns \<open>True\<close>, the clock having been
  read four times, the last time at 25 seconds for the second round.
\<close>

theorem retry_after_deadline_and_failure_not_reraised:
  "raised (bulk_insert_attempt [1, 2, 3 :: nat]
            (buffer_with 20 [] (record_failures [0, 0] buffer_breaker),
             (flaky_world (\<lambda>n. Some OperationFailure))\<lparr> ticks := 2 \<rparr>)) = Some OperationFailure
   \<and> returned (perform_bulk_insert [1, 2, 3 :: nat]
            (buffer_with 20 [] (record_failures [0, 0] buffer_breaker),
             flaky_world (\<lambda>n. Some OperationFailure))) = Some False
   \<and> raised (perform_bulk_insert [1, 2, 3 :: nat]
            (buffer_with 20 [] (record_failures [0, 0] buffer_breaker),
             flaky_world (\<lambda>n. Some OperationFailure))) = None
   \<and> batch_size (fst (final_state (flush
            (buffer_with 20 [1, 2, 3 :: nat] (record_failures [0, 0] buffer_breaker),
             flaky_world (\<lambda>n. Some OperationFailure))))) = 20
   \<and> time_at stalled_world 3 - time_at stalled_world 0 = seconds 25
   \<and> returned (perform_bulk_insert [1, 2, 3 :: nat]
            (buffer_with 10 [] buffer_breaker, stalled_world)) = Some True
   \<and> inserted (snd (final_state (perform_bulk_insert [1, 2, 3 :: nat]
            (buffer_with 10 [] buffer_breaker, stalled_world)))) = [[1, 2, 3], [1, 2, 3]]
   \<and> last_failure_time (circuit_breaker (fst (final_state (perform_bulk_insert [1, 2, 3 :: nat]
            (buffer_with 10 [] buffer_breaker, stalled_world))))) = Some (seconds 25)
   \<and> slept (snd (final_state (perform_bulk_insert [1, 2, 3 :: nat]
            (buffer_with 10 [] buffer_breaker, stalled_world)))) = [1 / 2]
   \<and> ticks (snd (final_state (perform_bulk_insert [1, 2, 3 :: nat]
            (buffer_with 10 [] buffer_breaker, stalled_world)))) = 4"
  by (simp add: eval_defs stalled_world_def buffer_breaker_def)

text \<open>
  A \<open>NetworkTimeout\<close> on the first \<open>insert_many\<close> is retried after a sleep of half a
  second and the second attempt succeeds; on a breaker with two failures counted, an
  \<open>OperationFailure\<close> opens the breaker and the retry is refused; the third wait of the
  backoff, with 7 of the 10 seconds gone, is between 0 and 3 seconds.
\<close>

theorem perform_bulk_insert_retry_policy_witness:
  "returned (perform_bulk_insert [1, 2, 3 :: nat]
      (buffer_with 10 [] buffer_breaker, flaky_world (\<lambda>n. if n = 0 then Some NetworkTimeout else None)))
     = Some True
   \<and> inserted (snd (final_state (perform_bulk_insert [1, 2, 3 :: nat]
      (buffer_with 10 [] buffer_breaker, flaky_world (\<lambda>n. if n = 0 then Some NetworkTimeout else None)))))
     = [[1, 2, 3], [1, 2, 3]]
   \<and> slept (snd (final_state (perform_bulk_insert [1, 2, 3 :: nat]
      (buffer_with 10 [] buffer_breaker, flaky_world (\<lambda>n. if n = 0 then Some NetworkTimeout else None)))))
     = [1 / 2]
   \<and> perform_bulk_insert [1, 2, 3 :: nat]
        (buffer_with 10 [] (record_failures [0, 0] buffer_breaker), flaky_world (\<lambda>n. Some OperationFailure))
     = Returns False
        (buffer_with 10 [] (record_failures [0, 0, seconds 2] buffer_breaker)
           \<lparr> stats := (stats (buffer_with 10 [] buffer_breaker))\<lparr> circuit_breaker_trips := 1 \<rparr> \<rparr>,
         logging Warning_breaker_open
           ((flaky_world (\<lambda>n. Some OperationFailure))
              \<lparr> ticks := 5, collection_calls := 1, inserted := [[1, 2, 3]],
                logged := [Error_bulk_insert OperationFailure], slept := [1 / 2] \<rparr>))
   \<and> 0 \<le> next_wait 2 (seconds 7) (seconds 10) quiet_world
   \<and> next_wait 2 (seconds 7) (seconds 10) quiet_world \<le> 3"
proof -
  have wf: "is_open (circuit_breaker (buffer_with 10 ([]::nat list) cb)) \<longrightarrow>
            last_failure_time (circuit_breaker (buffer_with 10 ([]::nat list) cb)) \<noteq> None"
    if "\<not> is_open cb" for cb
    using that by (simp add: buffer_with_def)
  have c1: "\<not> is_open buffer_breaker"
    by (simp add: buffer_breaker_def CircuitBreaker_init_def)
  have c2: "\<not> is_open (record_failures [0, 0] buffer_breaker)"
    by (simp add: buffer_breaker_def CircuitBreaker_init_def record_failure_def)
  note p1 = perform_bulk_insert_retry_policy [OF wf [OF c1],
      of "[1, 2, 3]" "flaky_world (\<lambda>n. if n = 0 then Some NetworkTimeout else None)"]
  note p2 = perform_bulk_insert_retry_policy [OF wf [OF c2],
      of "[1, 2, 3]" "flaky_world (\<lambda>n. Some OperationFailure)"]
  from p1 [THEN conjunct1] have a: "returned (perform_bulk_insert [1, 2, 3 :: nat]
      (buffer_with 10 [] buffer_breaker, flaky_world (\<lambda>n. if n = 0 then Some NetworkTimeout else None)))
     = Some True
    \<and> inserted (snd (final_state (perform_bulk_insert [1, 2, 3 :: nat]
      (buffer_with 10 [] buffer_breaker, flaky_world (\<lambda>n. if n = 0 then Some NetworkTimeout else None)))))
     = [[1, 2, 3], [1, 2, 3]]
    \<and> slept (snd (final_state (perform_bulk_insert [1, 2, 3 :: nat]
      (buffer_with 10 [] buffer_breaker, flaky_world (\<lambda>n. if n = 0 then Some NetworkTimeout else None)))))
     = [1 / 2]"
    by (simp add: eval_defs buffer_breaker_def)
  have first: "bulk_insert_attempt [1, 2, 3 :: nat]
        (buffer_with 10 [] (record_failures [0, 0] buffer_breaker),
         (flaky_world (\<lambda>n. Some OperationFailure))\<lparr> ticks := ticks (flaky_world (\<lambda>n. Some OperationFailure)) + 2 \<rparr>)
      = Raises OperationFailure
         (buffer_with 10 [] (record_failures [0, 0, seconds 2] buffer_breaker)
           \<lparr> stats := (stats (buffer_with 10 [] buffer_breaker))\<lparr> circuit_breaker_trips := 1 \<rparr> \<rparr>,
          (flaky_world (\<lambda>n. Some OperationFailure))
              \<lparr> ticks := 3, collection_calls := 1, inserted := [[1, 2, 3]],
                logged := [Error_bulk_insert OperationFailure] \<rparr>)"
    by (simp add: eval_defs buffer_breaker_def)
  from p2 [THEN conjunct2, THEN conjunct2, THEN conjunct2, rule_format, OF conjI [OF first]]
  have b: "perform_bulk_insert [1, 2, 3 :: nat]
        (buffer_with 10 [] (record_failures [0, 0] buffer_breaker), flaky_world (\<lambda>n. Some OperationFailure))
     = Returns False
        (buffer_with 10 [] (record_failures [0, 0, seconds 2] buffer_breaker)
           \<lparr> stats := (stats (buffer_with 10 [] buffer_breaker))\<lparr> circuit_breaker_trips := 1 \<rparr> \<rparr>,
         logging Warning_breaker_open
           ((flaky_world (\<lambda>n. Some OperationFailure))
              \<lparr> ticks := 5, collection_calls := 1, inserted := [[1, 2, 3]],
                logged := [Error_bulk_insert OperationFailure], slept := [1 / 2] \<rparr>))"
    by (simp add: flaky_world_def buffer_with_def buffer_breaker_def CircuitBreaker_init_def
          record_failure_def seconds_def asyncio_sleep_def next_wait_def full_jitter_def expo_def)
  from p1 [THEN conjunct2, THEN conjunct1, THEN spec [where x = "2::nat"],
      THEN spec [where x = "seconds 7"], THEN spec [where x = quiet_world]]
  have c: "0 \<le> next_wait 2 (seconds 7) (seconds 10) quiet_world
           \<and> next_wait 2 (seconds 7) (seconds 10) quiet_world \<le> 3"
    by (simp add: quiet_world_def flaky_world_def seconds_def)
  from a b c show ?thesis by simp
qed

text \<open>
  Against C10 as worded. The breaker has counted three failures, at time 0, and is open;
  the attempt starts 100 seconds later, so the gate closes the breaker and resets the
  count. Every \<open>insert_many\<close> raises \<open>ConnectionFailure\<close>: the attempt fails, and
  \<open>failure_count\<close> goes from 3 to 1, not to 4.
\<close>

theorem failed_attempt_on_reopened_breaker_counts_one:
  "failure_count (record_failures [0, 0, 0] buffer_breaker) = 3
   \<and> is_open (record_failures [0, 0, 0] buffer_breaker)
   \<and> raised (bulk_insert_attempt [1, 2, 3 :: nat]
        (buffer_with 10 [] (record_failures [0, 0, 0] buffer_breaker),
         (flaky_world (\<lambda>n. Some ConnectionFailure))\<lparr> ticks := 100 \<rparr>)) = Some ConnectionFailure
   \<and> failure_count (circuit_breaker (fst (final_state (bulk_insert_attempt [1, 2, 3 :: nat]
        (buffer_with 10 [] (record_failures [0, 0, 0] buffer_breaker),
         (flaky_world (\<lambda>n. Some ConnectionFailure))\<lparr> ticks := 100 \<rparr>))))) = 1
   \<and> circuit_breaker_trips (stats (fst (final_state (bulk_insert_attempt [1, 2, 3 :: nat]
        (buffer_with 10 [] (record_failures [0, 0, 0] buffer_breaker),
         (flaky_world (\<lambda>n. Some ConnectionFailure))\<lparr> ticks := 100 \<rparr>))))) = 1"
  by (simp add: eval_defs buffer_breaker_def)

text \<open>
  Claim C10, amended. For a well-formed breaker, every attempt that raises leaves
  \<open>failure_count\<close> one above the count the gate left (the count itself for a closed
  breaker, 0 for an open breaker whose cooldown has passed) and \<open>circuit_breaker_trips\<close>
  one above its old value, whether or not the breaker opens: it is open afterwards exactly
  when the new count has reached the threshold. Two raising attempts in a row on a breaker
  that stays closed add 2 to \<open>failure_count\<close> and 2 to \<open>circuit_breaker_trips\<close>.
\<close>

theorem failed_attempt_counts_failure_and_trip:
  assumes "is_open (circuit_breaker b) \<longrightarrow> last_failure_time (circuit_breaker b) \<noteq> None"
  shows "(\<forall>e b' w'. bulk_insert_attempt ms (b, w) = Raises e (b', w') \<longrightarrow>
            failure_count (circuit_breaker b')
              = (if is_open (circuit_breaker b) then 0 else failure_count (circuit_breaker b)) + 1
            \<and> circuit_breaker_trips (stats b') = circuit_breaker_trips (stats b) + 1
            \<and> (is_open (circuit_breaker b')
                 \<longleftrightarrow> failure_threshold (circuit_breaker b) \<le> failure_count (circuit_breaker b')))
       \<and> (\<forall>e1 b1 w1 wr e2 b2 w2.
            \<not> is_open (circuit_breaker b)
            \<and> bulk_insert_attempt ms (b, w) = Raises e1 (b1, w1)
            \<and> \<not> is_open (circuit_breaker b1)
            \<and> bulk_insert_attempt ms (b1, wr) = Raises e2 (b2, w2) \<longrightarrow>
            failure_count (circuit_breaker b2) = failure_count (circuit_breaker b) + 2
            \<and> circuit_breaker_trips (stats b2) = circuit_breaker_trips (stats b) + 2)"
proof (intro conjI allI impI)
  fix e b' w'
  assume "bulk_insert_attempt ms (b, w) = Raises e (b', w')"
  from attempt_raises [OF assms this]
  show "failure_count (circuit_breaker b')
              = (if is_open (circuit_breaker b) then 0 else failure_count (circuit_breaker b)) + 1"
    and "circuit_breaker_trips (stats b') = circuit_breaker_trips (stats b) + 1"
    and "is_open (circuit_breaker b')
                 \<longleftrightarrow> failure_threshold (circuit_breaker b) \<le> failure_count (circuit_breaker b')"
    by (simp_all add: record_failure_fields)
next
  fix e1 b1 w1 wr e2 b2 w2
  assume h: "\<not> is_open (circuit_breaker b)
            \<and> bulk_insert_attempt ms (b, w) = Raises e1 (b1, w1)
            \<and> \<not> is_open (circuit_breaker b1)
            \<and> bulk_insert_attempt ms (b1, wr) = Raises e2 (b2, w2)"
  then have one: "bulk_insert_attempt ms (b, w) = Raises e1 (b1, w1)"
    and two: "bulk_insert_attempt ms (b1, wr) = Raises e2 (b2, w2)" by simp_all
  from h have wf1: "is_open (circuit_breaker b1) \<longrightarrow> last_failure_time (circuit_breaker b1) \<noteq> None"
    by simp
  from attempt_raises [OF assms one] attempt_raises [OF wf1 two] h
  show "failure_count (circuit_breaker b2) = failure_count (circuit_breaker b) + 2"
    and "circuit_breaker_trips (stats b2) = circuit_breaker_trips (stats b) + 2"
    by (simp_all add: record_failure_fields)
qed

text \<open>
  A flush whose two attempts fail leaves the count at 2, two trips counted and the breaker
  closed; a flush whose first attempt fails and whose retry succeeds has counted one trip
  and one successful flush.
\<close>

theorem failed_attempt_counts_failure_and_trip_witness:
  "failure_count (circuit_breaker (fst (final_state (bulk_insert_attempt [1, 2, 3 :: nat]
       (buffer_with 10 [] buffer_breaker, flaky_world (\<lambda>n. Some ConnectionFailure)))))) = 1
   \<and> failure_count (circuit_breaker (fst (final_state (bulk_insert_attempt [1, 2, 3 :: nat]
       (final_state (bulk_insert_attempt [1, 2, 3 :: nat]
          (buffer_with 10 [] buffer_breaker, flaky_world (\<lambda>n. Some ConnectionFailure)))))))) = 2
   \<and> failure_count (circuit_breaker (fst (final_state (flush
       (buffer_with 10 [1, 2, 3 :: nat] buffer_breaker, flaky_world (\<lambda>n. Some ConnectionFailure)))))) = 2
   \<and> circuit_breaker_trips (stats (fst (final_state (flush
       (buffer_with 10 [1, 2, 3 :: nat] buffer_breaker, flaky_world (\<lambda>n. Some ConnectionFailure)))))) = 2
   \<and> \<not> is_open (circuit_breaker (fst (final_state (flush
       (buffer_with 10 [1, 2, 3 :: nat] buffer_breaker, flaky_world (\<lambda>n. Some ConnectionFailure))))))
   \<and> circuit_breaker_trips (stats (fst (final_state (flush
       (buffer_with 10 [1, 2, 3 :: nat] buffer_breaker,
        flaky_world (\<lambda>n. if n = 0 then Some NetworkTimeout else None)))))) = 1
   \<and> successful_flushes (stats (fst (final_state (flush
       (buffer_with 10 [1, 2, 3 :: nat] buffer_breaker,
        flaky_world (\<lambda>n. if n = 0 then Some NetworkTimeout else None)))))) = 1"
proof -
  let ?b = "buffer_with 10 ([]::nat list) buffer_breaker"
  let ?w = "flaky_world (\<lambda>n. Some ConnectionFailure) :: nat world"
  let ?s1 = "final_state (bulk_insert_attempt [1, 2, 3] (?b, ?w))"
  let ?s2 = "final_state (bulk_insert_attempt [1, 2, 3] ?s1)"
  have wf: "is_open (circuit_breaker ?b) \<longrightarrow> last_failure_time (circuit_breaker ?b) \<noteq> None"
    and c0: "\<not> is_open (circuit_breaker ?b)" and f0: "failure_count (circuit_breaker ?b) = 0"
    by (simp_all add: buffer_with_def buffer_breaker_def CircuitBreaker_init_def)
  have r1: "bulk_insert_attempt [1, 2, 3] (?b, ?w) = Raises ConnectionFailure (fst ?s1, snd ?s1)"
    by (simp add: eval_defs buffer_breaker_def)
  have c1: "\<not> is_open (circuit_breaker (fst ?s1))"
    by (simp add: eval_defs buffer_breaker_def)
  have r2: "bulk_insert_attempt [1, 2, 3] (fst ?s1, snd ?s1)
              = Raises ConnectionFailure (fst ?s2, snd ?s2)"
    by (simp add: eval_defs buffer_breaker_def)
  note t = failed_attempt_counts_failure_and_trip [OF wf, of "[1, 2, 3]" ?w]
  from t have "bulk_insert_attempt [1, 2, 3] (?b, ?w) = Raises ConnectionFailure (fst ?s1, snd ?s1) \<longrightarrow>
            failure_count (circuit_breaker (fst ?s1))
              = (if is_open (circuit_breaker ?b) then 0 else failure_count (circuit_breaker ?b)) + 1"
    by blast
  from this [rule_format, OF r1] c0 f0
  have one: "failure_count (circuit_breaker (fst ?s1)) = 1"
    by simp
  from t have "\<not> is_open (circuit_breaker ?b)
            \<and> bulk_insert_attempt [1, 2, 3] (?b, ?w) = Raises ConnectionFailure (fst ?s1, snd ?s1)
            \<and> \<not> is_open (circuit_breaker (fst ?s1))
            \<and> bulk_insert_attempt [1, 2, 3] (fst ?s1, snd ?s1)
                 = Raises ConnectionFailure (fst ?s2, snd ?s2) \<longrightarrow>
            failure_count (circuit_breaker (fst ?s2)) = failure_count (circuit_breaker ?b) + 2"
    by blast
  from this [rule_format, OF conjI [OF c0 conjI [OF r1 conjI [OF c1 r2]]]] f0
  have two: "failure_count (circuit_breaker (fst ?s2)) = 2"
    by simp
  have rest: "failure_count (circuit_breaker (fst (final_state (flush
       (buffer_with 10 [1, 2, 3 :: nat] buffer_breaker, ?w))))) = 2
   \<and> circuit_breaker_trips (stats (fst (final_state (flush
       (buffer_with 10 [1, 2, 3 :: nat] buffer_breaker, ?w))))) = 2
   \<and> \<not> is_open (circuit_breaker (fst (final_state (flush
       (buffer_with 10 [1, 2, 3 :: nat] buffer_breaker, ?w)))))
   \<and> circuit_breaker_trips (stats (fst (final_state (flush
       (buffer_with 10 [1, 2, 3 :: nat] buffer_breaker,
        flaky_world (\<lambda>n. if n = 0 then Some NetworkTimeout else None)))))) = 1
   \<and> successful_flushes (stats (fst (final_state (flush
       (buffer_with 10 [1, 2, 3 :: nat] buffer_breaker,
        flaky_world (\<lambda>n. if n = 0 then Some NetworkTimeout else None)))))) = 1"
    by (simp add: eval_defs buffer_breaker_def)
  from one two rest show ?thesis by (intro conjI) simp_all
qed

section \<open>add\_message\<close>

lemma flush_held: "lock b \<Longrightarrow> flush (b, w) = Blocks (b, w)"
  by (simp add: flush_def with_lock_def)

lemma add_message_held: "lock b \<Longrightarrow> add_message m (b, w) = Blocks (b, w)"
  by (simp add: add_message_def with_lock_def)

text \<open>
  Claim C1. What \<open>add_message\<close> does when the lock is free. As long as the pending list
  with the new record stays below \<open>batch_size\<close>, it appends the record, counts it and
  returns; the store is not touched. When the list reaches \<open>batch_size\<close>, it calls
  \<open>flush\<close> while it still holds the lock; \<open>flush\<close> asks for the same lock, which is
  not reentrant, so the call is suspended for ever: \<open>add_message\<close> does not return, the
  record stays pending, the lock stays held, nothing is handed to the store, and every
  later \<open>flush\<close> or \<open>add_message\<close> on that buffer is suspended as well. The flush that
  the claim expects at the threshold never runs.
\<close>

theorem add_message_at_threshold_blocks:
  assumes "\<not> lock b"
  shows "(int (length (messages b)) + 1 < batch_size b \<longrightarrow>
            add_message m (b, w)
              = Returns () (b\<lparr> messages := messages b @ [m],
                               stats := (stats b)\<lparr> total_messages := total_messages (stats b) + 1 \<rparr> \<rparr>, w))
       \<and> (batch_size b \<le> int (length (messages b)) + 1 \<longrightarrow>
            add_message m (b, w)
              = Blocks (b\<lparr> messages := messages b @ [m],
                            stats := (stats b)\<lparr> total_messages := total_messages (stats b) + 1 \<rparr>,
                            lock := True \<rparr>, w)
            \<and> (\<forall>b' w'. add_message m (b, w) = Blocks (b', w') \<longrightarrow>
                  lock b' \<and> inserted w' = inserted w
                  \<and> flush (b', w') = Blocks (b', w')
                  \<and> (\<forall>m'. add_message m' (b', w') = Blocks (b', w'))))"
  using assms
  by (auto simp: add_message_def with_lock_def Let_def flush_held)

lemmas add_defs = add_message_def with_lock_def flush_def quiet_world_def flaky_world_def
  message_buffer_def MessageBuffer_init_def datetime_now_def CircuitBreaker_init_def Let_def

text \<open>
  Scenario A: batch size 10. Nine records are added, the buffer holds nine and the store
  has seen nothing; the tenth \<open>add_message\<close> is suspended for ever with ten records
  pending, the lock held and the store still untouched.
\<close>

theorem add_message_at_threshold_blocks_witness:
  "returned (add_messages [1, 2, 3, 4, 5, 6, 7, 8, 9] (message_buffer quiet_world)) = Some ()
   \<and> messages (fst (final_state (add_messages [1, 2, 3, 4, 5, 6, 7, 8, 9] (message_buffer quiet_world))))
       = [1, 2, 3, 4, 5, 6, 7, 8, 9]
   \<and> inserted (snd (final_state (add_messages [1, 2, 3, 4, 5, 6, 7, 8, 9] (message_buffer quiet_world)))) = []
   \<and> add_message 10 (final_state (add_messages [1, 2, 3, 4, 5, 6, 7, 8, 9] (message_buffer quiet_world)))
       = Blocks ((fst (message_buffer quiet_world))
                   \<lparr> messages := [1, 2, 3, 4, 5, 6, 7, 8, 9, 10],
                     stats := (stats (fst (message_buffer quiet_world)))\<lparr> total_messages := 10 \<rparr>,
                     lock := True \<rparr>,
                 snd (message_buffer quiet_world))
   \<and> inserted (snd (message_buffer quiet_world)) = []"
proof -
  let ?s9 = "final_state (add_messages [1, 2, 3, 4, 5, 6, 7, 8, 9] (message_buffer quiet_world))"
  have s9: "?s9 = ((fst (message_buffer quiet_world))
                   \<lparr> messages := [1, 2, 3, 4, 5, 6, 7, 8, 9],
                     stats := (stats (fst (message_buffer quiet_world)))\<lparr> total_messages := 9 \<rparr> \<rparr>,
                 snd (message_buffer quiet_world))"
    by (simp add: add_defs)
  have nl: "\<not> lock (fst ?s9)" by (simp add: s9) (simp add: add_defs)
  from add_message_at_threshold_blocks [OF nl, of 10 "snd ?s9"]
  have "add_message 10 ?s9
       = Blocks ((fst (message_buffer quiet_world))
                   \<lparr> messages := [1, 2, 3, 4, 5, 6, 7, 8, 9, 10],
                     stats := (stats (fst (message_buffer quiet_world)))\<lparr> total_messages := 10 \<rparr>,
                     lock := True \<rparr>,
                 snd (message_buffer quiet_world))"
    by (simp add: s9) (simp add: add_defs)
  then show ?thesis
    by (simp add: s9) (simp add: add_defs)
qed

section \<open>The batch size\<close>

lemma flush_locked_bounds:
  assumes "in_bounds b"
  shows "in_bounds (fst (final_state (flush_locked (b, w))))"
proof (cases "messages b = []")
  case True
  with assms show ?thesis by (simp add: flush_locked_def)
next
  case False
  let ?b0 = "b\<lparr> messages := [] \<rparr>"
  from perform_frame [of ?b0 "messages b" w]
  have bs: "batch_size (fst (final_state (perform_bulk_insert (messages b) (?b0, w)))) = batch_size b"
    by (simp add: frame_def)
  show ?thesis
  proof (cases "perform_bulk_insert (messages b) (?b0, w)")
    case (Returns v s1)
    with bs assms False show ?thesis
      by (cases v; cases s1)
         (simp_all add: flush_locked_def Let_def in_bounds_def count_failed_flush_def
            count_successful_flush_def case_prod_beta)
  next
    case (Raises e s1)
    with bs assms False show ?thesis
      by (cases s1)
         (auto simp: flush_locked_def Let_def in_bounds_def count_failed_flush_def)
  next
    case (Blocks s1)
    with perform_not_Blocks show ?thesis by blast
  qed
qed

lemma with_lock_bounds:
  assumes "\<And>b w. in_bounds b \<Longrightarrow> in_bounds (fst (final_state (body (b, w))))"
    and "in_bounds b"
  shows "in_bounds (fst (final_state (with_lock body (b, w))))"
proof (cases "lock b")
  case True
  with assms(2) show ?thesis by (simp add: with_lock_def)
next
  case False
  have "in_bounds (b\<lparr> lock := True \<rparr>)" using assms(2) by (simp add: in_bounds_def)
  from assms(1) [OF this, of w] False show ?thesis
    by (cases "body (b\<lparr> lock := True \<rparr>, w)")
       (auto simp: with_lock_def in_bounds_def)
qed

lemma flush_bounds: "in_bounds b \<Longrightarrow> in_bounds (fst (final_state (flush (b, w))))"
  unfolding flush_def by (rule with_lock_bounds) (rule flush_locked_bounds)

lemma add_message_bounds:
  "in_bounds b \<Longrightarrow> in_bounds (fst (final_state (add_message m (b, w))))"
  unfolding add_message_def
  by (rule with_lock_bounds) (auto simp: Let_def in_bounds_def intro!: flush_bounds [unfolded in_bounds_def])

lemma periodic_round_bounds:
  assumes "in_bounds b"
  shows "in_bounds (fst (final_state (periodic_round (b, w))))"
proof (cases "breaker_gate (circuit_breaker b) w")
  case (Pair r w1)
  show ?thesis
  proof (cases r)
    case (Inl e)
    with Pair assms show ?thesis by (simp add: periodic_round_def)
  next
    case (Inr p)
    obtain ok cb where p: "p = (ok, cb)" by (cases p)
    show ?thesis
    proof (cases ok)
      case False
      with Pair Inr p assms show ?thesis by (simp add: periodic_round_def in_bounds_def)
    next
      case True
      have "in_bounds (b\<lparr> circuit_breaker := cb \<rparr>)" using assms by (simp add: in_bounds_def)
      from flush_bounds [OF this, of w1] Pair Inr p True show ?thesis
        by (cases "flush (b\<lparr> circuit_breaker := cb \<rparr>, w1)")
           (auto simp: periodic_round_def in_bounds_def)
    qed
  qed
qed

lemma serve_bounds: "in_bounds (fst s) \<Longrightarrow> in_bounds (fst (serve r s))"
  by (cases r; cases s) (simp_all add: add_message_bounds flush_bounds periodic_round_bounds)

lemma serve_all_bounds: "in_bounds (fst s) \<Longrightarrow> in_bounds (fst (serve_all rs s))"
  by (induction rs arbitrary: s) (simp_all add: serve_bounds)

text \<open>
  Claim C6. Starting from the global buffer (batch size 10), after any sequence of
  \<open>add_message\<close>, \<open>flush\<close> and rounds of the periodic flush, under any clock and
  any faults of the store, the batch size lies between 10 and 50.
\<close>

theorem batch_size_stays_in_bounds:
  "10 \<le> batch_size (fst (serve_all rs (message_buffer w)))
   \<and> batch_size (fst (serve_all rs (message_buffer w))) \<le> 50"
proof -
  have "in_bounds (fst (message_buffer w))"
    by (simp add: in_bounds_def message_buffer_def MessageBuffer_init_def datetime_now_def)
  from serve_all_bounds [OF this, of rs] show ?thesis
    by (simp add: in_bounds_def)
qed

section \<open>Read receipts\<close>

lemma addToSet_idem: "addToSet x (addToSet x xs) = addToSet x xs"
  by (simp add: addToSet_def)

lemma addToSet_member: "x \<in> set (addToSet x xs)"
  by (simp add: addToSet_def)

lemma addToSet_count: "x \<notin> set xs \<Longrightarrow> count_list (addToSet x xs) x = 1"
  by (simp add: addToSet_def count_list_0_iff)

lemma db_call_ok:
  "db_fault s (db_calls s) = None \<Longrightarrow> db_call s = Returns () (s\<lparr> db_calls := Suc (db_calls s) \<rparr>)"
  by (simp add: db_call_def)

lemma update_one_read_again:
  assumes "message_docs s msg_id = Some d" and "status d = ''read''" and "user_id \<in> set (read_by d)"
  shows "update_one_read msg_id user_id s = s"
proof -
  have "d\<lparr> status := ''read'', read_by := addToSet user_id (read_by d) \<rparr> = d"
    using assms(2,3) by (simp add: addToSet_def)
  then show ?thesis
    using assms(1) by (simp add: update_one_read_def map_upd_triv)
qed

lemma mark_read_again:
  assumes "message_docs s msg_id = Some d" and "status d = ''read''" and "user_id \<in> set (read_by d)"
    and "sessions s sid ''user_id'' = Some user_id"
    and "data ''message_id'' = Some mid" and "ObjectId mid = Inr msg_id"
  shows "message_docs (final_state (mark_read ObjectId sid data s)) = message_docs s"
proof -
  have u: "update_one_read msg_id user_id (s\<lparr> db_calls := n \<rparr>) = s\<lparr> db_calls := n \<rparr>" for n
    using assms(1-3) by (intro update_one_read_again [where d = d]) simp_all
  show ?thesis
    using assms
    by (auto simp: mark_read_def mark_read_try_def and_then_def db_call_def u
          notify_read_def sio_emit_def Let_def split: option.splits)
qed

lemma mark_read_result:
  assumes "sessions s sid ''user_id'' = Some user_id"
    and "data ''message_id'' = Some mid" and "ObjectId mid = Inr msg_id"
    and "message_docs s msg_id = Some d"
    and "db_fault s (db_calls s) = None" and "db_fault s (Suc (db_calls s)) = None"
    and "db_fault s (Suc (Suc (db_calls s))) = None"
    and "doc_type d = ''group'' \<longrightarrow> group_id d \<noteq> None"
  shows "mark_read ObjectId sid data s =
           Returns ()
             (sio_emit ''message_update'' (Read_receipt msg_id (addToSet user_id (read_by d)))
                (if doc_type d = ''group'' then Group_room (the (group_id d))
                 else User_room (from_user_id d))
                (s\<lparr> message_docs := (message_docs s)
                       (msg_id \<mapsto> d\<lparr> status := ''read'', read_by := addToSet user_id (read_by d) \<rparr>),
                   db_calls := Suc (Suc (Suc (db_calls s))) \<rparr>))"
proof (cases "doc_type d = ''group''")
  case True
  with assms(8) obtain g where "group_id d = Some g" by auto
  with True assms(1-7) show ?thesis
    by (simp add: mark_read_def mark_read_try_def and_then_def db_call_ok update_one_read_def
          notify_read_def Let_def)
next
  case False
  with assms(1-7) show ?thesis
    by (simp add: mark_read_def mark_read_try_def and_then_def db_call_ok update_one_read_def
          notify_read_def Let_def)
qed

text \<open>
  Claim C7. What \<open>mark_read\<close> does with a read receipt from a session with a user id,
  for a stored message, with the three store calls succeeding (and a group message
  carrying its group id):
  \<open>mark_read\<close> returns; the message has the reader in \<open>read_by\<close>, added with
  \<open>$addToSet\<close>, and its status is "read", whatever its type, direct or group; one
  \<open>message_update\<close> with the new \<open>read_by\<close> is emitted, to the group's room for a
  group message and to the sender's room otherwise. Adding the same reader again changes
  nothing in \<open>read_by\<close>, which holds the reader once if it did not hold it before, and a
  second \<open>mark_read\<close> leaves the stored messages as they are.
\<close>

theorem mark_read_adds_reader_and_sets_read:
  assumes "sessions s sid ''user_id'' = Some user_id"
    and "data ''message_id'' = Some mid" and "ObjectId mid = Inr msg_id"
    and "message_docs s msg_id = Some d"
    and "db_fault s (db_calls s) = None" and "db_fault s (Suc (db_calls s)) = None"
    and "db_fault s (Suc (Suc (db_calls s))) = None"
    and "doc_type d = ''group'' \<longrightarrow> group_id d \<noteq> None"
  shows "\<exists>s'. mark_read ObjectId sid data s = Returns () s'
           \<and> message_docs s' = (message_docs s)
                 (msg_id \<mapsto> d\<lparr> status := ''read'', read_by := addToSet user_id (read_by d) \<rparr>)
           \<and> emitted s' = emitted s @
                 [(''message_update'', Read_receipt msg_id (addToSet user_id (read_by d)),
                   if doc_type d = ''group'' then Group_room (the (group_id d))
                   else User_room (from_user_id d))]
           \<and> user_id \<in> set (addToSet user_id (read_by d))
           \<and> addToSet user_id (addToSet user_id (read_by d)) = addToSet user_id (read_by d)
           \<and> (user_id \<notin> set (read_by d) \<longrightarrow> count_list (addToSet user_id (read_by d)) user_id = 1)
           \<and> message_docs (final_state (mark_read ObjectId sid data s')) = message_docs s'"
proof -
  let ?d' = "d\<lparr> status := ''read'', read_by := addToSet user_id (read_by d) \<rparr>"
  define s' where "s' = sio_emit ''message_update'' (Read_receipt msg_id (addToSet user_id (read_by d)))
                (if doc_type d = ''group'' then Group_room (the (group_id d))
                 else User_room (from_user_id d))
                (s\<lparr> message_docs := (message_docs s)(msg_id \<mapsto> ?d'),
                   db_calls := Suc (Suc (Suc (db_calls s))) \<rparr>)"
  have r: "mark_read ObjectId sid data s = Returns () s'"
    unfolding s'_def using assms by (rule mark_read_result)
  have docs: "message_docs s' = (message_docs s)(msg_id \<mapsto> ?d')"
    and em: "emitted s' = emitted s @
                 [(''message_update'', Read_receipt msg_id (addToSet user_id (read_by d)),
                   if doc_type d = ''group'' then Group_room (the (group_id d))
                   else User_room (from_user_id d))]"
    and se: "sessions s' = sessions s"
    by (simp_all add: s'_def sio_emit_def)
  have "message_docs (final_state (mark_read ObjectId sid data s')) = message_docs s'"
    using assms(1-3) docs se
    by (intro mark_read_again [where d = ?d' and user_id = user_id and mid = mid and msg_id = msg_id])
       (simp_all add: addToSet_member)
  with r docs em show ?thesis
    by (auto simp: addToSet_idem addToSet_member addToSet_count)
qed

lemmas server_defs = demo_server_def demo_ObjectId_def mark_read_def mark_read_try_def and_then_def
  db_call_def update_one_read_def notify_read_def sio_emit_def addToSet_def Let_def

text \<open>
  The claim has the status set for direct messages only. Bob's read receipt for alice's
  group message sets the status of the group message to "read".
\<close>

theorem mark_read_sets_group_message_read:
  "map_option doc_type (message_docs demo_server ''0000000000000000000000a1'') = Some ''group''
   \<and> map_option status (message_docs demo_server ''0000000000000000000000a1'') = Some ''sent''
   \<and> map_option status
        (message_docs
           (final_state (mark_read demo_ObjectId ''sid-bob''
              [''message_id'' \<mapsto> ''0000000000000000000000a1''] demo_server))
           ''0000000000000000000000a1'') = Some ''read''"
  by (simp add: server_defs)

text \<open>
  Bob's read receipt for alice's direct message goes to alice's room; the one for her
  group message goes to the group's room, with bob added after alice.
\<close>

theorem mark_read_adds_reader_and_sets_read_witness:
  "map_option read_by
        (message_docs
           (final_state (mark_read demo_ObjectId ''sid-bob''
              [''message_id'' \<mapsto> ''0000000000000000000000a2''] demo_server))
           ''0000000000000000000000a2'') = Some [''bob'']
   \<and> emitted (final_state (mark_read demo_ObjectId ''sid-bob''
              [''message_id'' \<mapsto> ''0000000000000000000000a2''] demo_server))
       = [(''message_update'', Read_receipt ''0000000000000000000000a2'' [''bob''], User_room ''alice'')]
   \<and> emitted (final_state (mark_read demo_ObjectId ''sid-bob''
              [''message_id'' \<mapsto> ''0000000000000000000000a1''] demo_server))
       = [(''message_update'', Read_receipt ''0000000000000000000000a1'' [''alice'', ''bob''],
           Group_room ''0000000000000000000000c1'')]"
proof -
  have d2: "message_docs demo_server ''0000000000000000000000a2'' =
      Some \<lparr> doc_type = ''direct'', from_user_id = ''alice'',
              group_id = None, to_user_id = Some ''bob'', doc_to = None,
              status = ''sent'', read_by = [] \<rparr>"
    by (simp add: demo_server_def)
  have d1: "message_docs demo_server ''0000000000000000000000a1'' =
      Some \<lparr> doc_type = ''group'', from_user_id = ''alice'',
              group_id = Some ''0000000000000000000000c1'', to_user_id = None, doc_to = None,
              status = ''sent'', read_by = [''alice''] \<rparr>"
    by (simp add: demo_server_def)
  have se: "sessions demo_server ''sid-bob'' ''user_id'' = Some ''bob''"
    by (simp add: demo_server_def)
  have nf: "db_fault demo_server n = None" for n
    by (simp add: demo_server_def)
  from mark_read_adds_reader_and_sets_read
         [OF se _ _ d2 nf nf nf, of "[''message_id'' \<mapsto> ''0000000000000000000000a2'']"
            "''0000000000000000000000a2''" demo_ObjectId]
  have a: "map_option read_by
        (message_docs
           (final_state (mark_read demo_ObjectId ''sid-bob''
              [''message_id'' \<mapsto> ''0000000000000000000000a2''] demo_server))
           ''0000000000000000000000a2'') = Some [''bob'']
     \<and> emitted (final_state (mark_read demo_ObjectId ''sid-bob''
              [''message_id'' \<mapsto> ''0000000000000000000000a2''] demo_server))
       = [(''message_update'', Read_receipt ''0000000000000000000000a2'' [''bob''], User_room ''alice'')]"
    by (auto simp: demo_ObjectId_def addToSet_def demo_server_def)
  from mark_read_adds_reader_and_sets_read
         [OF se _ _ d1 nf nf nf, of "[''message_id'' \<mapsto> ''0000000000000000000000a1'']"
            "''0000000000000000000000a1''" demo_ObjectId]
  have b: "emitted (final_state (mark_read demo_ObjectId ''sid-bob''
              [''message_id'' \<mapsto> ''0000000000000000000000a1''] demo_server))
       = [(''message_update'', Read_receipt ''0000000000000000000000a1'' [''alice'', ''bob''],
           Group_room ''0000000000000000000000c1'')]"
    by (auto simp: demo_ObjectId_def addToSet_def demo_server_def)
  from a b show ?thesis by simp
qed

section \<open>Group ownership\<close>

lemma notify_members_docs:
  "group_docs (notify_members ms u p s) = group_docs s"
  by (induction ms arbitrary: s) (simp_all add: sio_emit_def)

lemma pull_removes: "set (pull x xs) = set xs - {x}"
  by (auto simp: pull_def)

lemma pull_changes:
  assumes "x \<in> set xs"
  shows "pull x xs \<noteq> xs"
proof
  assume "pull x xs = xs"
  with assms have "x \<in> set (pull x xs)" by simp
  then show False by (simp add: pull_def)
qed

lemma delete_group_result:
  assumes "ObjectId gid = Inr group_oid" and "group_docs s group_oid = Some grp"
    and "\<forall>n. db_fault s n = None"
  shows "returned (delete_group ObjectId gid s) = Some Group_deleted
       \<and> group_docs (final_state (delete_group ObjectId gid s)) group_oid = None"
  by (simp add: delete_group_def delete_group_try_def and_then_def db_call_def Let_def assms)

lemma remove_checks:
  assumes "ObjectId gid = Inr group_oid" and "group_docs s group_oid = Some grp"
    and "\<forall>n. db_fault s n = None" and "user_id \<in> set (member_ids grp)"
  shows "remove_from_group_try ObjectId now gid user_id admin_id s =
           (if truthy admin_id
            then (if the admin_id \<noteq> created_by grp
                  then Raises (HTTPException 403 (Text ''Only group creator can remove members''))
                         (s\<lparr> db_calls := Suc (Suc (db_calls s)) \<rparr>)
                  else pull_and_notify now gid group_oid grp user_id (the admin_id)
                         (s\<lparr> db_calls := Suc (Suc (db_calls s)) \<rparr>))
            else (if user_id = created_by grp
                  then Raises (HTTPException 400
                         (Text ''Group creator cannot leave the group. Please delete the group instead.''))
                         (s\<lparr> db_calls := Suc (Suc (db_calls s)) \<rparr>)
                  else pull_and_notify now gid group_oid grp user_id user_id
                         (s\<lparr> db_calls := Suc (Suc (db_calls s)) \<rparr>)))"
  by (simp add: remove_from_group_try_def and_then_def db_call_def Let_def assms
        split del: if_split cong: if_weak_cong)

lemma pull_and_notify_result:
  assumes "group_docs s group_oid = Some grp" and "\<forall>n. db_fault s n = None"
    and "user_id \<in> set (member_ids grp)"
  shows "pull_and_notify now gid group_oid grp user_id admin s =
           Returns (Removed_reply gid user_id admin)
             (notify_members (member_ids grp) user_id
                (Group_notification
                   (if admin \<noteq> user_id then Removed_from_group (name grp) else Left_group (name grp))
                   gid now)
                (s\<lparr> db_calls := Suc (db_calls s),
                   group_docs := (group_docs s)
                     (group_oid \<mapsto> grp\<lparr> member_ids := pull user_id (member_ids grp) \<rparr>) \<rparr>))"
  by (simp add: pull_and_notify_def and_then_def db_call_def Let_def assms pull_changes
        split del: if_split cong: if_weak_cong)

text \<open>
  Claim C8. What the two routes check, for an existing group and a store that answers
  every call. \<open>delete_group\<close> deletes the group for whoever asks: the request names no
  caller and nothing is checked. In \<open>remove_from_group\<close>, for a member \<open>user_id\<close>: a
  request with a non-empty \<open>admin_id\<close> other than the creator is rejected (a 500 answer
  wrapping the 403) and changes nothing; with the creator as \<open>admin_id\<close> the member is
  removed; with no \<open>admin_id\<close>, or an empty one, the request is taken as \<open>user_id\<close>
  leaving: it removes \<open>user_id\<close> and nobody else, unless \<open>user_id\<close> is the creator,
  who is told to delete the group instead (a 500 answer wrapping the 400) and stays.
\<close>

theorem group_ownership_checks:
  assumes "ObjectId gid = Inr group_oid" and "group_docs s group_oid = Some grp"
    and "\<forall>n. db_fault s n = None"
  shows "returned (delete_group ObjectId gid s) = Some Group_deleted
       \<and> group_docs (final_state (delete_group ObjectId gid s)) group_oid = None
       \<and> (user_id \<in> set (member_ids grp) \<and> truthy admin_id \<and> the admin_id \<noteq> created_by grp \<longrightarrow>
            raised (remove_from_group ObjectId now gid user_id admin_id s)
              = Some (HTTPException 500 (Str (HTTPException 403
                        (Text ''Only group creator can remove members''))))
            \<and> group_docs (final_state (remove_from_group ObjectId now gid user_id admin_id s))
                = group_docs s
            \<and> emitted (final_state (remove_from_group ObjectId now gid user_id admin_id s))
                = emitted s)
       \<and> (user_id \<in> set (member_ids grp) \<and> truthy admin_id \<and> the admin_id = created_by grp \<longrightarrow>
            returned (remove_from_group ObjectId now gid user_id admin_id s)
              = Some (Removed_reply gid user_id (created_by grp))
            \<and> group_docs (final_state (remove_from_group ObjectId now gid user_id admin_id s))
                = (group_docs s)
                    (group_oid \<mapsto> grp\<lparr> member_ids := pull user_id (member_ids grp) \<rparr>))
       \<and> (user_id \<in> set (member_ids grp) \<and> \<not> truthy admin_id \<and> user_id \<noteq> created_by grp \<longrightarrow>
            returned (remove_from_group ObjectId now gid user_id admin_id s)
              = Some (Removed_reply gid user_id user_id)
            \<and> group_docs (final_state (remove_from_group ObjectId now gid user_id admin_id s))
                = (group_docs s)
                    (group_oid \<mapsto> grp\<lparr> member_ids := pull user_id (member_ids grp) \<rparr>)
            \<and> set (pull user_id (member_ids grp)) = set (member_ids grp) - {user_id})
       \<and> (user_id \<in> set (member_ids grp) \<and> \<not> truthy admin_id \<and> user_id = created_by grp \<longrightarrow>
            raised (remove_from_group ObjectId now gid user_id admin_id s)
              = Some (HTTPException 500 (Str (HTTPException 400
                  (Text ''Group creator cannot leave the group. Please delete the group instead.''))))
            \<and> group_docs (final_state (remove_from_group ObjectId now gid user_id admin_id s))
                = group_docs s
            \<and> emitted (final_state (remove_from_group ObjectId now gid user_id admin_id s))
                = emitted s)"
proof -
  let ?s2 = "s\<lparr> db_calls := Suc (Suc (db_calls s)) \<rparr>"
  have g2: "group_docs ?s2 group_oid = Some grp" and f2: "\<forall>n. db_fault ?s2 n = None"
    using assms by simp_all
  note pn = pull_and_notify_result [where s = ?s2 and group_oid = group_oid and grp = grp, OF g2 f2]
  note rc = remove_checks [where ObjectId = ObjectId and gid = gid and group_oid = group_oid
      and s = s and grp = grp, OF assms]
  have c1: "user_id \<in> set (member_ids grp) \<and> truthy admin_id \<and> the admin_id \<noteq> created_by grp \<longrightarrow>
            raised (remove_from_group ObjectId now gid user_id admin_id s)
              = Some (HTTPException 500 (Str (HTTPException 403
                        (Text ''Only group creator can remove members''))))
            \<and> group_docs (final_state (remove_from_group ObjectId now gid user_id admin_id s))
                = group_docs s
            \<and> emitted (final_state (remove_from_group ObjectId now gid user_id admin_id s))
                = emitted s"
  proof (intro impI, elim conjE)
    assume h: "user_id \<in> set (member_ids grp)" "truthy admin_id" "the admin_id \<noteq> created_by grp"
    show "raised (remove_from_group ObjectId now gid user_id admin_id s)
              = Some (HTTPException 500 (Str (HTTPException 403
                        (Text ''Only group creator can remove members''))))
            \<and> group_docs (final_state (remove_from_group ObjectId now gid user_id admin_id s))
                = group_docs s
            \<and> emitted (final_state (remove_from_group ObjectId now gid user_id admin_id s))
                = emitted s"
      by (simp add: remove_from_group_def rc [OF h(1)] h)
  qed
  have c2: "user_id \<in> set (member_ids grp) \<and> truthy admin_id \<and> the admin_id = created_by grp \<longrightarrow>
            returned (remove_from_group ObjectId now gid user_id admin_id s)
              = Some (Removed_reply gid user_id (created_by grp))
            \<and> group_docs (final_state (remove_from_group ObjectId now gid user_id admin_id s))
                = (group_docs s)
                    (group_oid \<mapsto> grp\<lparr> member_ids := pull user_id (member_ids grp) \<rparr>)"
  proof (intro impI, elim conjE)
    assume h: "user_id \<in> set (member_ids grp)" "truthy admin_id" "the admin_id = created_by grp"
    show "returned (remove_from_group ObjectId now gid user_id admin_id s)
              = Some (Removed_reply gid user_id (created_by grp))
            \<and> group_docs (final_state (remove_from_group ObjectId now gid user_id admin_id s))
                = (group_docs s)
                    (group_oid \<mapsto> grp\<lparr> member_ids := pull user_id (member_ids grp) \<rparr>)"
      by (simp add: remove_from_group_def rc [OF h(1)] pn [OF h(1)] h notify_members_docs)
  qed
  have c3: "user_id \<in> set (member_ids grp) \<and> \<not> truthy admin_id \<and> user_id \<noteq> created_by grp \<longrightarrow>
            returned (remove_from_group ObjectId now gid user_id admin_id s)
              = Some (Removed_reply gid user_id user_id)
            \<and> group_docs (final_state (remove_from_group ObjectId now gid user_id admin_id s))
                = (group_docs s)
                    (group_oid \<mapsto> grp\<lparr> member_ids := pull user_id (member_ids grp) \<rparr>)
            \<and> set (pull user_id (member_ids grp)) = set (member_ids grp) - {user_id}"
  proof (intro impI, elim conjE)
    assume h: "user_id \<in> set (member_ids grp)" "\<not> truthy admin_id" "user_id \<noteq> created_by grp"
    show "returned (remove_from_group ObjectId now gid user_id admin_id s)
              = Some (Removed_reply gid user_id user_id)
            \<and> group_docs (final_state (remove_from_group ObjectId now gid user_id admin_id s))
                = (group_docs s)
                    (group_oid \<mapsto> grp\<lparr> member_ids := pull user_id (member_ids grp) \<rparr>)
            \<and> set (pull user_id (member_ids grp)) = set (member_ids grp) - {user_id}"
      by (simp add: remove_from_group_def rc [OF h(1)] pn [OF h(1)] h notify_members_docs
            pull_removes)
  qed
  have c4: "user_id \<in> set (member_ids grp) \<and> \<not> truthy admin_id \<and> user_id = created_by grp \<longrightarrow>
            raised (remove_from_group ObjectId now gid user_id admin_id s)
              = Some (HTTPException 500 (Str (HTTPException 400
                  (Text ''Group creator cannot leave the group. Please delete the group instead.''))))
            \<and> group_docs (final_state (remove_from_group ObjectId now gid user_id admin_id s))
                = group_docs s
            \<and> emitted (final_state (remove_from_group ObjectId now gid user_id admin_id s))
                = emitted s"
  proof (intro impI, elim conjE)
    assume h: "user_id \<in> set (member_ids grp)" "\<not> truthy admin_id" "user_id = created_by grp"
    show "raised (remove_from_group ObjectId now gid user_id admin_id s)
              = Some (HTTPException 500 (Str (HTTPException 400
                  (Text ''Group creator cannot leave the group. Please delete the group instead.''))))
            \<and> group_docs (final_state (remove_from_group ObjectId now gid user_id admin_id s))
                = group_docs s
            \<and> emitted (final_state (remove_from_group ObjectId now gid user_id admin_id s))
                = emitted s"
      by (simp add: remove_from_group_def rc [OF h(1)] h(2) h(3) [symmetric])
  qed
  note dg = delete_group_result [where ObjectId = ObjectId and gid = gid and group_oid = group_oid
      and s = s and grp = grp, OF assms]
  from dg [THEN conjunct1] dg [THEN conjunct2] c1 c2 c3 c4 show ?thesis
    by (intro conjI) assumption+
qed

lemmas group_defs = demo_server_def demo_ObjectId_def delete_group_def delete_group_try_def
  remove_from_group_def remove_from_group_try_def pull_and_notify_def truthy_def pull_def
  and_then_def db_call_def sio_emit_def Let_def

text \<open>
  The claim has a delete request from anyone but the creator rejected. The group was
  created by alice; a delete request, which says nothing about who sends it, deletes the
  group.
\<close>

theorem delete_group_without_owner_check:
  "map_option created_by (group_docs demo_server ''0000000000000000000000c1'') = Some ''alice''
   \<and> returned (delete_group demo_ObjectId ''0000000000000000000000c1'' demo_server) = Some Group_deleted
   \<and> group_docs (final_state (delete_group demo_ObjectId ''0000000000000000000000c1'' demo_server))
        ''0000000000000000000000c1'' = None"
  by (simp add: group_defs)

text \<open>
  On the example group: carol may not remove bob, alice may remove carol, bob may leave,
  alice may not leave, and the group can be deleted.
\<close>

theorem group_ownership_checks_witness:
  "raised (remove_from_group demo_ObjectId 0 ''0000000000000000000000c1'' ''bob'' (Some ''carol'')
            demo_server)
     = Some (HTTPException 500 (Str (HTTPException 403
               (Text ''Only group creator can remove members''))))
   \<and> returned (remove_from_group demo_ObjectId 0 ''0000000000000000000000c1'' ''carol'' (Some ''alice'')
            demo_server)
     = Some (Removed_reply ''0000000000000000000000c1'' ''carol'' ''alice'')
   \<and> map_option member_ids
        (group_docs (final_state (remove_from_group demo_ObjectId 0 ''0000000000000000000000c1''
            ''bob'' None demo_server)) ''0000000000000000000000c1'')
     = Some [''alice'', ''carol'']
   \<and> raised (remove_from_group demo_ObjectId 0 ''0000000000000000000000c1'' ''alice'' None
            demo_server)
     = Some (HTTPException 500 (Str (HTTPException 400
               (Text ''Group creator cannot leave the group. Please delete the group instead.''))))
   \<and> group_docs (final_state (delete_group demo_ObjectId ''0000000000000000000000c1'' demo_server))
        ''0000000000000000000000c1'' = None"
proof -
  let ?team = "\<lparr> name = ''team'', member_ids = [''alice'', ''bob'', ''carol''], created_by = ''alice'' \<rparr>"
  have oid: "demo_ObjectId ''0000000000000000000000c1'' = Inr ''0000000000000000000000c1''"
    by (simp add: demo_ObjectId_def)
  have g: "group_docs demo_server ''0000000000000000000000c1'' = Some ?team"
    by (simp add: demo_server_def)
  have nf: "\<forall>n. db_fault demo_server n = None"
    by (simp add: demo_server_def)
  note t = group_ownership_checks [where ObjectId = demo_ObjectId and s = demo_server
      and gid = "''0000000000000000000000c1''" and group_oid = "''0000000000000000000000c1''"
      and grp = ?team and now = 0, OF oid g nf]
  from t [where user_id = "''bob''" and admin_id = "Some ''carol''"]
  have a: "raised (remove_from_group demo_ObjectId 0 ''0000000000000000000000c1'' ''bob'' (Some ''carol'')
            demo_server)
     = Some (HTTPException 500 (Str (HTTPException 403
               (Text ''Only group creator can remove members''))))"
    by (simp add: truthy_def)
  from t [where user_id = "''carol''" and admin_id = "Some ''alice''"]
  have b: "returned (remove_from_group demo_ObjectId 0 ''0000000000000000000000c1'' ''carol'' (Some ''alice'')
            demo_server)
     = Some (Removed_reply ''0000000000000000000000c1'' ''carol'' ''alice'')"
    by (simp add: truthy_def)
  from t [where user_id = "''bob''" and admin_id = None]
  have c: "map_option member_ids
        (group_docs (final_state (remove_from_group demo_ObjectId 0 ''0000000000000000000000c1''
            ''bob'' None demo_server)) ''0000000000000000000000c1'')
     = Some [''alice'', ''carol'']"
    by (simp add: truthy_def pull_def)
  from t [where user_id = "''alice''" and admin_id = None]
  have d: "raised (remove_from_group demo_ObjectId 0 ''0000000000000000000000c1'' ''alice'' None
            demo_server)
     = Some (HTTPException 500 (Str (HTTPException 400
               (Text ''Group creator cannot leave the group. Please delete the group instead.''))))"
    and e: "group_docs (final_state (delete_group demo_ObjectId ''0000000000000000000000c1'' demo_server))
        ''0000000000000000000000c1'' = None"
    by (simp_all add: truthy_def)
  from a b c d e show ?thesis by (intro conjI)
qed

end
